theory Spec2Isabelle
  imports Main "HOL-Library.Multiset"
begin

section \<open>The trivia board of jeopardy.js\<close>

text \<open>
  A shallow embedding of \<^verbatim>\<open>src/jeopardy/jeopardy.js\<close>. The two module-level variables
  (\<^verbatim>\<open>gameCategories\<close>, \<^verbatim>\<open>teamScores\<close>) and the parts of the page the script reads and
  writes are the fields of one state record; every handler is a function on that record.
  The remote service and \<^verbatim>\<open>Math.random\<close> are parameters, so that a theorem about all
  responses and all random draws covers every run.
\<close>

subsection \<open>Constants\<close>

definition CATEGORY_TOTAL :: nat where
  "CATEGORY_TOTAL = 6"

definition CLUES_PER_CATEGORY :: nat where
  "CLUES_PER_CATEGORY = 5"

subsection \<open>JavaScript values\<close>

text \<open>
  The values a team score can take. \<open>Num n\<close> is the number \<open>n\<close>, \<open>Undefined\<close> is what
  reading a missing property gives and \<open>NaN\<close> is what arithmetic on it gives.

  JavaScript numbers are IEEE doubles. A sum or difference of integers is computed
  exactly as long as the operands and the result lie between \<open>- MAX_SAFE_INTEGER\<close> and
  \<open>MAX_SAFE_INTEGER\<close> (\<^verbatim>\<open>Number.MAX_SAFE_INTEGER\<close>, \<open>2^53 - 1\<close>); beyond that the double
  result is rounded, and near \<open>2^60\<close> adding 100 changes nothing. \<open>js_plus\<close> and
  \<open>js_minus\<close> compute on integers, so they give the program's value inside that range
  only: a statement about the value of a score carries the range as a hypothesis.
  Rounding keeps the sign of a result, which is all the comparator of the sort and the
  floor at 0 depend on.
\<close>

datatype jsval = Undefined | NaN | Num int

definition MAX_SAFE_INTEGER :: int where
  "MAX_SAFE_INTEGER = 2 ^ 53 - 1"

text \<open>\<^verbatim>\<open>x + d\<close> and \<^verbatim>\<open>x - d\<close> for a number \<open>d\<close>, \<^verbatim>\<open>a - b\<close>, and \<^verbatim>\<open>Math.max(0, x)\<close>.\<close>

fun js_plus :: "jsval \<Rightarrow> int \<Rightarrow> jsval" where
  "js_plus (Num n) d = Num (n + d)"
| "js_plus _ d = NaN"

fun js_minus :: "jsval \<Rightarrow> jsval \<Rightarrow> jsval" where
  "js_minus (Num a) (Num b) = Num (a - b)"
| "js_minus _ _ = NaN"

fun Math_max0 :: "jsval \<Rightarrow> jsval" where
  "Math_max0 (Num n) = Num (max 0 n)"
| "Math_max0 _ = NaN"

text \<open>
  What jQuery's \<^verbatim>\<open>.data(key)\<close> returns for a \<^verbatim>\<open>data-*\<close> attribute: a string, or a
  number when the attribute's text is numeric.
\<close>

datatype datum = DStr string | DNum int

datatype js_error = NetworkError | TypeError

subsection \<open>Categories and clues\<close>

text \<open>\<^verbatim>\<open>clue.showing\<close> is \<^verbatim>\<open>null\<close>, \<^verbatim>\<open>"question"\<close> or \<^verbatim>\<open>"answer"\<close>.\<close>

datatype showing = Null | Question | Answer

record clue =
  question :: string
  answer :: string
  showing :: showing

record category =
  title :: string
  clues :: "clue list"

text \<open>
  The JSON of the remote service: \<^verbatim>\<open>GET categories\<close> answers an array of
  \<^verbatim>\<open>{id, title, ...}\<close>, \<^verbatim>\<open>GET category\<close> answers \<^verbatim>\<open>{title, clues: [{question, answer,
  ...}]}\<close>. \<open>clue_id\<close> stands for the further fields that tell two clues of the service
  apart. A request either fails (\<open>Inl\<close>) or carries the data (\<open>Inr\<close>).
\<close>

record api_category =
  api_id :: int
  api_title :: string

record api_clue =
  clue_id :: int
  clue_question :: string
  clue_answer :: string

record api_category_data =
  data_title :: string
  data_clues :: "api_clue list"

subsection \<open>lodash's \<^verbatim>\<open>sampleSize\<close>\<close>

text \<open>
  \<^verbatim>\<open>_.sampleSize(array, n)\<close> copies the array, runs the first \<open>n\<close> rounds of a
  Fisher-Yates shuffle on the copy (\<open>n\<close> clamped to the array's length) and truncates the
  copy to \<open>n\<close>. Round \<open>index\<close> swaps position \<open>index\<close> with position
  \<^verbatim>\<open>baseRandom(index, lastIndex)\<close>. The random source is the function \<open>rnd\<close>: \<open>rnd index\<close>
  is the draw of round \<open>index\<close>, reduced into the range the round allows.
\<close>

definition baseRandom :: "nat \<Rightarrow> nat \<Rightarrow> nat \<Rightarrow> nat" where
  "baseRandom r lower upper = lower + r mod (upper - lower + 1)"

function shuffleSelf_loop :: "(nat \<Rightarrow> nat) \<Rightarrow> nat \<Rightarrow> nat \<Rightarrow> 'a list \<Rightarrow> 'a list" where
  "shuffleSelf_loop rnd sz index array =
     (if index < sz then
        (let rand = baseRandom (rnd index) index (length array - 1);
             v = array ! rand
         in shuffleSelf_loop rnd sz (index + 1) (array[rand := array ! index, index := v]))
      else array)"
  by pat_completeness auto
termination
  by (relation "measure (\<lambda>(rnd, sz, index, array). sz - index)") auto

definition shuffleSelf :: "(nat \<Rightarrow> nat) \<Rightarrow> 'a list \<Rightarrow> nat \<Rightarrow> 'a list" where
  "shuffleSelf rnd array sz = take sz (shuffleSelf_loop rnd sz 0 array)"

definition sampleSize :: "(nat \<Rightarrow> nat) \<Rightarrow> 'a list \<Rightarrow> nat \<Rightarrow> 'a list" where
  "sampleSize rnd collection n = shuffleSelf rnd collection (min n (length collection))"

subsection \<open>The program state\<close>

text \<open>
  \<open>gameCategories\<close> and \<open>teamScores\<close> are the script's two variables. An entry of
  \<open>gameCategories\<close> is \<open>None\<close> where the script pushed \<^verbatim>\<open>undefined\<close> (a failed
  \<^verbatim>\<open>fetchCategoryData\<close>). \<open>teamScores\<close> is an object whose property names are array
  indices, kept as an association list in ascending key order, the order in which
  \<^verbatim>\<open>Object.keys\<close> lists such names.

  The page: \<open>thead\<close> holds the header rows of \<^verbatim>\<open>#jeopardy\<close>, \<open>tbody\<close> the value column of
  its body rows, \<open>cells\<close> the text of the cell with id \<^verbatim>\<open>cell-c-i\<close> at \<open>(c, i)\<close>,
  \<open>score_text t\<close> the text of \<^verbatim>\<open>#team-t .score\<close>, \<open>rankings\<close> and \<open>final_rankings\<close> the
  items of \<^verbatim>\<open>#rankings\<close> and \<^verbatim>\<open>#final-rankings\<close> (team and score of each line),
  \<open>winning_team_heading\<close> the team named in \<^verbatim>\<open>#winning-team-heading\<close> (\<open>None\<close> where the
  script would print \<^verbatim>\<open>undefined\<close>). The booleans say which elements are shown:
  \<open>game_elements\<close> is the group \<^verbatim>\<open>#winning-team-heading, #leaderboard, #complete-game-btn\<close>,
  the other four are the primary panels. \<open>console\<close> collects the calls of
  \<^verbatim>\<open>console.error\<close>. \<open>timers\<close> counts the pending \<^verbatim>\<open>setTimeout\<close> callbacks and \<open>setups\<close>
  the calls of \<^verbatim>\<open>setupAndStartGame\<close> that wait for the remote service.
\<close>

record state =
  gameCategories :: "category option list"
  teamScores :: "(nat \<times> jsval) list"
  thead :: "string list list"
  tbody :: "nat list"
  cells :: "nat \<times> nat \<Rightarrow> string option"
  score_text :: "nat \<Rightarrow> jsval"
  rankings :: "(nat \<times> jsval) list"
  winning_team_heading :: "nat option"
  final_rankings :: "(nat \<times> jsval) list"
  game_elements :: bool
  start_screen :: bool
  loading_screen :: bool
  game_board_screen :: bool
  rankings_div :: bool
  console :: "(string \<times> js_error) list"
  timers :: nat
  setups :: nat

text \<open>The remote service's answers and the random draws of one game setup.\<close>

record world =
  categories_response :: "js_error + api_category list"
  category_response :: "nat \<Rightarrow> int \<Rightarrow> js_error + api_category_data"
  rnd_ids :: "nat \<Rightarrow> nat"
  rnd_clues :: "nat \<Rightarrow> nat \<Rightarrow> nat"

subsection \<open>The score object\<close>

text \<open>\<^verbatim>\<open>{ 1: 0, 2: 0, 3: 0 }\<close>\<close>

definition initial_teamScores :: "(nat \<times> jsval) list" where
  "initial_teamScores = [(1, Num 0), (2, Num 0), (3, Num 0)]"

text \<open>\<^verbatim>\<open>teamScores[team]\<close>, read and written, and \<^verbatim>\<open>Object.keys(teamScores)\<close>.\<close>

definition score_of :: "(nat \<times> jsval) list \<Rightarrow> nat \<Rightarrow> jsval" where
  "score_of ts team = (case map_of ts team of None \<Rightarrow> Undefined | Some v \<Rightarrow> v)"

fun set_score :: "nat \<Rightarrow> jsval \<Rightarrow> (nat \<times> jsval) list \<Rightarrow> (nat \<times> jsval) list" where
  "set_score team v [] = [(team, v)]"
| "set_score team v ((k, w) # ts) =
     (if team = k then (k, v) # ts
      else if team < k then (team, v) # (k, w) # ts
      else (k, w) # set_score team v ts)"

definition Object_keys :: "(nat \<times> jsval) list \<Rightarrow> nat list" where
  "Object_keys ts = map fst ts"

subsection \<open>\<^verbatim>\<open>Array.prototype.sort\<close>\<close>

text \<open>
  The comparator's result \<open>v\<close> puts its first argument after the second when \<open>v > 0\<close>;
  \<^verbatim>\<open>NaN\<close> counts as 0. The sort is stable, as ECMAScript requires, and for a consistent
  comparator every stable sort returns the same array; it is written here as an insertion
  sort.
\<close>

fun js_positive :: "jsval \<Rightarrow> bool" where
  "js_positive (Num n) = (0 < n)"
| "js_positive _ = False"

fun js_insert :: "('a \<Rightarrow> 'a \<Rightarrow> jsval) \<Rightarrow> 'a \<Rightarrow> 'a list \<Rightarrow> 'a list" where
  "js_insert cmp x [] = [x]"
| "js_insert cmp x (y # ys) =
     (if js_positive (cmp x y) then y # js_insert cmp x ys else x # y # ys)"

definition js_sort :: "('a \<Rightarrow> 'a \<Rightarrow> jsval) \<Rightarrow> 'a list \<Rightarrow> 'a list" where
  "js_sort cmp xs = foldr (js_insert cmp) xs []"

subsection \<open>Fetching\<close>

text \<open>
  Each fetch function is the body of its \<^verbatim>\<open>try\<close> (\<open>_try\<close>, in which a failed request
  throws) under its \<^verbatim>\<open>catch\<close>. The result of the function is \<open>Inl e\<close> if it throws \<open>e\<close> to
  its caller and \<open>Inr r\<close> if it returns \<open>r\<close>, where \<open>None\<close> is \<^verbatim>\<open>undefined\<close>.
\<close>

definition fetchCategoryIds_try ::
    "(nat \<Rightarrow> nat) \<Rightarrow> js_error + api_category list \<Rightarrow> js_error + int list" where
  "fetchCategoryIds_try rnd response =
     (case response of
        Inl error \<Rightarrow> Inl error
      | Inr data \<Rightarrow> (let ids = map api_id data in Inr (sampleSize rnd ids CATEGORY_TOTAL)))"

definition fetchCategoryIds ::
    "(nat \<Rightarrow> nat) \<Rightarrow> js_error + api_category list \<Rightarrow> state
      \<Rightarrow> (js_error + int list option) \<times> state" where
  "fetchCategoryIds rnd response st =
     (case fetchCategoryIds_try rnd response of
        Inr ids \<Rightarrow> (Inr (Some ids), st)
      | Inl error \<Rightarrow>
          (Inr None, st\<lparr>console := console st @ [(''Failed to fetch category IDs:'', error)]\<rparr>))"

text \<open>The arrow function that \<^verbatim>\<open>fetchCategoryData\<close> maps over the sampled clues.\<close>

definition format_clue :: "api_clue \<Rightarrow> clue" where
  "format_clue c = \<lparr>question = clue_question c, answer = clue_answer c, showing = Null\<rparr>"

definition fetchCategoryData_try ::
    "(nat \<Rightarrow> nat) \<Rightarrow> js_error + api_category_data \<Rightarrow> js_error + category" where
  "fetchCategoryData_try rnd response =
     (case response of
        Inl error \<Rightarrow> Inl error
      | Inr data \<Rightarrow>
          (let cs = map format_clue (sampleSize rnd (data_clues data) CLUES_PER_CATEGORY)
           in Inr \<lparr>title = data_title data, clues = cs\<rparr>))"

definition fetchCategoryData ::
    "(nat \<Rightarrow> nat) \<Rightarrow> js_error + api_category_data \<Rightarrow> state
      \<Rightarrow> (js_error + category option) \<times> state" where
  "fetchCategoryData rnd response st =
     (case fetchCategoryData_try rnd response of
        Inr cat \<Rightarrow> (Inr (Some cat), st)
      | Inl error \<Rightarrow>
          (Inr None, st\<lparr>console := console st @ [(''Failed to fetch category data:'', error)]\<rparr>))"

subsection \<open>The board\<close>

text \<open>
  \<^verbatim>\<open>createGameBoard\<close> empties the table, builds the header row and appends it, then
  appends one row per clue index. Reading \<^verbatim>\<open>cat.title\<close> of an \<^verbatim>\<open>undefined\<close> entry throws
  before the header row is appended (\<open>those\<close> is \<open>None\<close> as soon as one entry is).
\<close>

definition createGameBoard :: "state \<Rightarrow> js_error option \<times> state" where
  "createGameBoard st =
     (let st1 = st\<lparr>thead := [], tbody := [], cells := (\<lambda>cell. None)\<rparr> in
      case those (gameCategories st1) of
        None \<Rightarrow> (Some TypeError, st1)
      | Some cats \<Rightarrow>
          (let headerRow = ''Value'' # map title cats
           in (None, st1\<lparr>thead := [headerRow],
                         tbody := map (\<lambda>i. (i + 1) * 100) [0..<CLUES_PER_CATEGORY],
                         cells := (\<lambda>(catIndex, i).
                            if catIndex < length (gameCategories st1) \<and> i < CLUES_PER_CATEGORY
                            then Some ''?'' else None)\<rparr>)))"

text \<open>
  \<^verbatim>\<open>handleCellClick\<close> on the cell with id \<^verbatim>\<open>cell-catIndex-clueIndex\<close>. Reading a property
  of \<^verbatim>\<open>undefined\<close> (no such category, no such clue) throws and changes nothing.
\<close>

definition handleCellClick :: "nat \<times> nat \<Rightarrow> state \<Rightarrow> js_error + state" where
  "handleCellClick cell st =
     (case cell of (catIndex, clueIndex) \<Rightarrow>
        if length (gameCategories st) \<le> catIndex then Inl TypeError
        else
          (case gameCategories st ! catIndex of
             None \<Rightarrow> Inl TypeError
           | Some cat \<Rightarrow>
               if length (clues cat) \<le> clueIndex then Inl TypeError
               else
                 (let clue = clues cat ! clueIndex in
                  if showing clue = Null then
                    Inr (st\<lparr>cells := (cells st)(cell \<mapsto> question clue),
                            gameCategories := (gameCategories st)
                              [catIndex := Some (cat\<lparr>clues := (clues cat)
                                 [clueIndex := clue\<lparr>showing := Question\<rparr>]\<rparr>)]\<rparr>)
                  else if showing clue = Question then
                    Inr (st\<lparr>cells := (cells st)(cell \<mapsto> answer clue),
                            gameCategories := (gameCategories st)
                              [catIndex := Some (cat\<lparr>clues := (clues cat)
                                 [clueIndex := clue\<lparr>showing := Answer\<rparr>]\<rparr>)]\<rparr>)
                  else Inr st)))"

subsection \<open>Scores and leaderboard\<close>

definition sortedTeams :: "(nat \<times> jsval) list \<Rightarrow> nat list" where
  "sortedTeams ts =
     js_sort (\<lambda>a b. js_minus (score_of ts b) (score_of ts a)) (Object_keys ts)"

definition updateLeaderboard :: "state \<Rightarrow> state" where
  "updateLeaderboard st =
     (let sorted = sortedTeams (teamScores st) in
      st\<lparr>rankings := map (\<lambda>team. (team, score_of (teamScores st) team)) sorted,
         winning_team_heading := (case sorted of [] \<Rightarrow> None | team # _ \<Rightarrow> Some team)\<rparr>)"

text \<open>
  \<^verbatim>\<open>adjustScore\<close> for a button whose \<^verbatim>\<open>data-team\<close> is \<open>team\<close> and whose \<^verbatim>\<open>data-adjust\<close> is
  \<open>adjust\<close>. jQuery's \<^verbatim>\<open>.text(undefined)\<close> reads instead of writing, so the score text is
  left alone when the team has no score.
\<close>

definition adjustScore :: "nat \<Rightarrow> datum \<Rightarrow> state \<Rightarrow> state" where
  "adjustScore team adjust st =
     (let ts = (if adjust = DStr ''add'' then
                  set_score team (js_plus (score_of (teamScores st) team) 100) (teamScores st)
                else if adjust = DStr ''subtract'' then
                  set_score team
                    (Math_max0 (js_minus (score_of (teamScores st) team) (Num 100)))
                    (teamScores st)
                else teamScores st);
          st1 = st\<lparr>teamScores := ts\<rparr>;
          st2 = (case score_of ts team of
                   Undefined \<Rightarrow> st1
                 | v \<Rightarrow> st1\<lparr>score_text := (score_text st1)(team := v)\<rparr>)
      in updateLeaderboard st2)"

subsection \<open>Screens and lifecycle\<close>

definition showLoading :: "state \<Rightarrow> state" where
  "showLoading st = st\<lparr>thead := [], tbody := [], cells := (\<lambda>cell. None), loading_screen := True\<rparr>"

definition removeLoading :: "state \<Rightarrow> state" where
  "removeLoading st = st\<lparr>loading_screen := False\<rparr>"

text \<open>
  \<^verbatim>\<open>setupAndStartGame\<close> runs up to its first \<^verbatim>\<open>await\<close> in the task that calls it
  (\<open>setupAndStartGame_begin\<close>) and goes on when the remote service has answered
  (\<open>setupAndStartGame_resume\<close>). Between the later \<^verbatim>\<open>await\<close>s of the loop only
  \<open>gameCategories\<close> and \<open>console\<close> change, so the continuation is one step. Its result
  is the error the call throws, if any, and the state it leaves.
\<close>

definition setupAndStartGame_begin :: "state \<Rightarrow> state" where
  "setupAndStartGame_begin st =
     (let st1 = showLoading st;
          st2 = st1\<lparr>teamScores := initial_teamScores\<rparr>;
          st3 = st2\<lparr>score_text := (\<lambda>team. Num 0)\<rparr>;
          st4 = updateLeaderboard st3
      in st4\<lparr>setups := setups st4 + 1\<rparr>)"

fun fetch_loop :: "world \<Rightarrow> nat \<Rightarrow> int list \<Rightarrow> state \<Rightarrow> js_error option \<times> state" where
  "fetch_loop w k [] st = (None, st)"
| "fetch_loop w k (catId # ids) st =
     (case fetchCategoryData (rnd_clues w k) (category_response w k catId) st of
        (Inl error, st1) \<Rightarrow> (Some error, st1)
      | (Inr r, st1) \<Rightarrow>
          fetch_loop w (k + 1) ids (st1\<lparr>gameCategories := gameCategories st1 @ [r]\<rparr>))"

definition setupAndStartGame_resume :: "world \<Rightarrow> state \<Rightarrow> js_error option \<times> state" where
  "setupAndStartGame_resume w st =
     (case fetchCategoryIds (rnd_ids w) (categories_response w) (st\<lparr>setups := setups st - 1\<rparr>) of
        (Inl error, st1) \<Rightarrow> (Some error, st1)
      | (Inr categoryIds, st1) \<Rightarrow>
          (let st2 = st1\<lparr>gameCategories := []\<rparr> in
           case categoryIds of
             None \<Rightarrow> (Some TypeError, st2)
           | Some ids \<Rightarrow>
               (case fetch_loop w 0 ids st2 of
                  (Some error, st3) \<Rightarrow> (Some error, st3)
                | (None, st3) \<Rightarrow>
                    (let st4 = snd (createGameBoard st3);
                         st5 = st4\<lparr>game_elements := True\<rparr>;
                         st6 = st5\<lparr>game_board_screen := True\<rparr>
                     in (None, removeLoading st6)))))"

definition setupAndStartGame :: "world \<Rightarrow> state \<Rightarrow> js_error option \<times> state" where
  "setupAndStartGame w st = setupAndStartGame_resume w (setupAndStartGame_begin st)"

definition completeGame :: "state \<Rightarrow> state" where
  "completeGame st =
     (let st1 = st\<lparr>game_board_screen := False\<rparr>;
          sorted = sortedTeams (teamScores st1);
          st2 = st1\<lparr>final_rankings :=
                      map (\<lambda>team. (team, score_of (teamScores st1) team)) sorted\<rparr>
      in st2\<lparr>rankings_div := True\<rparr>)"

definition returnToMain :: "state \<Rightarrow> state" where
  "returnToMain st = st\<lparr>rankings_div := False, start_screen := True\<rparr>"

text \<open>The handlers that the \<^verbatim>\<open>ready\<close> callback installs, and the callback itself.\<close>

definition document_ready :: "state \<Rightarrow> state" where
  "document_ready st =
     st\<lparr>start_screen := True, loading_screen := False, game_board_screen := False,
        rankings_div := False\<rparr>"

definition start_game_click :: "state \<Rightarrow> state" where
  "start_game_click st =
     st\<lparr>start_screen := False, loading_screen := True, timers := timers st + 1\<rparr>"

definition restart_game_click :: "state \<Rightarrow> state" where
  "restart_game_click st =
     st\<lparr>game_board_screen := False, loading_screen := True, timers := timers st + 1\<rparr>"

definition timeout_callback :: "state \<Rightarrow> state" where
  "timeout_callback st =
     setupAndStartGame_begin (st\<lparr>loading_screen := False, timers := timers st - 1\<rparr>)"

subsection \<open>Runs of the page\<close>

text \<open>
  \<open>reachable\<close> over-approximates the states of a run: after the \<^verbatim>\<open>ready\<close> callback on a
  page whose script has just initialised its variables, any handler may run at any time
  with any arguments; a timer callback needs a pending timer and a continuation of
  \<^verbatim>\<open>setupAndStartGame\<close> a waiting call. A click on a cell whose handler throws leaves the
  state as it was.
\<close>

inductive reachable :: "state \<Rightarrow> bool" where
  on_ready: "gameCategories st = [] \<Longrightarrow> teamScores st = initial_teamScores \<Longrightarrow>
          timers st = 0 \<Longrightarrow> setups st = 0 \<Longrightarrow> reachable (document_ready st)"
| on_start: "reachable st \<Longrightarrow> reachable (start_game_click st)"
| on_restart: "reachable st \<Longrightarrow> reachable (restart_game_click st)"
| on_timeout: "reachable st \<Longrightarrow> 0 < timers st \<Longrightarrow> reachable (timeout_callback st)"
| on_resume: "reachable st \<Longrightarrow> 0 < setups st \<Longrightarrow>
           reachable (snd (setupAndStartGame_resume w st))"
| on_cell: "reachable st \<Longrightarrow> handleCellClick c st = Inr st' \<Longrightarrow> reachable st'"
| on_adjust: "reachable st \<Longrightarrow> reachable (adjustScore team adjust st)"
| on_complete: "reachable st \<Longrightarrow> reachable (completeGame st)"
| on_back: "reachable st \<Longrightarrow> reachable (returnToMain st)"

text \<open>
  Modelled from the spec: the page's markup is not among the sources, so which button can
  be clicked on which screen is taken from the lifecycle of the specification (section
  4.7): the start action belongs to the start screen, the restart and complete actions
  and the clue cells to the board, the back action to the final rankings. The handlers
  themselves are the script's.
\<close>

inductive lifecycle :: "state \<Rightarrow> bool" where
  on_ready: "gameCategories st = [] \<Longrightarrow> teamScores st = initial_teamScores \<Longrightarrow>
          timers st = 0 \<Longrightarrow> setups st = 0 \<Longrightarrow> lifecycle (document_ready st)"
| on_start: "lifecycle st \<Longrightarrow> start_screen st \<Longrightarrow> lifecycle (start_game_click st)"
| on_restart: "lifecycle st \<Longrightarrow> game_board_screen st \<Longrightarrow> lifecycle (restart_game_click st)"
| on_timeout: "lifecycle st \<Longrightarrow> 0 < timers st \<Longrightarrow> lifecycle (timeout_callback st)"
| on_resume: "lifecycle st \<Longrightarrow> 0 < setups st \<Longrightarrow>
           lifecycle (snd (setupAndStartGame_resume w st))"
| on_cell: "lifecycle st \<Longrightarrow> game_board_screen st \<Longrightarrow> handleCellClick c st = Inr st' \<Longrightarrow>
         lifecycle st'"
| on_adjust: "lifecycle st \<Longrightarrow> lifecycle (adjustScore team adjust st)"
| on_complete: "lifecycle st \<Longrightarrow> game_board_screen st \<Longrightarrow> lifecycle (completeGame st)"
| on_back: "lifecycle st \<Longrightarrow> rankings_div st \<Longrightarrow> lifecycle (returnToMain st)"

text \<open>The primary panels that are shown.\<close>

datatype panel = Start | Loading | Board | FinalRankings

definition visible_panels :: "state \<Rightarrow> panel list" where
  "visible_panels st =
     (if start_screen st then [Start] else []) @
     (if loading_screen st then [Loading] else []) @
     (if game_board_screen st then [Board] else []) @
     (if rankings_div st then [FinalRankings] else [])"

subsection \<open>What a cell shows\<close>

text \<open>
  The clue behind the cell \<open>(catIndex, clueIndex)\<close>, if there is one, and the text that
  mirrors its reveal state.
\<close>

definition clue_at :: "state \<Rightarrow> nat \<times> nat \<Rightarrow> clue option" where
  "clue_at st cell =
     (case cell of (catIndex, clueIndex) \<Rightarrow>
        if catIndex < length (gameCategories st) then
          (case gameCategories st ! catIndex of
             None \<Rightarrow> None
           | Some cat \<Rightarrow>
               if clueIndex < length (clues cat) then Some (clues cat ! clueIndex) else None)
        else None)"



subsection \<open>Sample data\<close>

text \<open>A freshly loaded page, a service with 100 categories of 7 clues each, and one
  whose every request fails.\<close>

definition fresh_page :: state where
  "fresh_page =
     \<lparr>gameCategories = [], teamScores = initial_teamScores, thead = [], tbody = [],
      cells = (\<lambda>cell. None), score_text = (\<lambda>team. Num 0), rankings = [],
      winning_team_heading = None, final_rankings = [], game_elements = False,
      start_screen = False, loading_screen = False, game_board_screen = False,
      rankings_div = False, console = [], timers = 0, setups = 0\<rparr>"

definition sample_pool :: "api_category list" where
  "sample_pool = map (\<lambda>i. \<lparr>api_id = int i, api_title = ''T''\<rparr>) [0..<100]"

definition sample_data :: "nat \<Rightarrow> api_category_data" where
  "sample_data n =
     \<lparr>data_title = ''T'',
      data_clues = map (\<lambda>i. \<lparr>clue_id = int i, clue_question = ''Q'', clue_answer = ''A''\<rparr>)
                       [0..<n]\<rparr>"

definition sample_world :: world where
  "sample_world =
     \<lparr>categories_response = Inr sample_pool,
      category_response = (\<lambda>k catId. Inr (sample_data 7)),
      rnd_ids = (\<lambda>i. 3 * i + 1),
      rnd_clues = (\<lambda>k i. k + i)\<rparr>"

definition zero_rnd :: "nat \<Rightarrow> nat" where
  "zero_rnd i = 0"

definition failing_world :: world where
  "failing_world =
     \<lparr>categories_response = Inl NetworkError,
      category_response = (\<lambda>k catId. Inl NetworkError),
      rnd_ids = (\<lambda>i. 0),
      rnd_clues = (\<lambda>k i. 0)\<rparr>"


subsection \<open>What a game setup stores\<close>

text \<open>
  \<open>fetched\<close> is what one \<^verbatim>\<open>fetchCategoryData\<close> call hands to the loop, \<open>pushed\<close> the
  entries the loop appends for a list of identifiers and \<open>new_categories\<close> the value of
  \<^verbatim>\<open>gameCategories\<close> when the setup ends; they only depend on the remote service and the
  random draws.
\<close>

definition fetched :: "(nat \<Rightarrow> nat) \<Rightarrow> js_error + api_category_data \<Rightarrow> category option" where
  "fetched rnd response =
     (case fetchCategoryData_try rnd response of Inl error \<Rightarrow> None | Inr cat \<Rightarrow> Some cat)"

fun pushed :: "world \<Rightarrow> nat \<Rightarrow> int list \<Rightarrow> category option list" where
  "pushed w k [] = []"
| "pushed w k (catId # ids) =
     fetched (rnd_clues w k) (category_response w k catId) # pushed w (k + 1) ids"

definition new_categories :: "world \<Rightarrow> category option list" where
  "new_categories w =
     (case categories_response w of
        Inl error \<Rightarrow> []
      | Inr data \<Rightarrow> pushed w 0 (sampleSize (rnd_ids w) (map api_id data) CATEGORY_TOTAL))"

text \<open>The board of the sample service, reached through the start button.\<close>

definition sample_board :: state where
  "sample_board =
     snd (setupAndStartGame_resume sample_world (timeout_callback (start_game_click (document_ready fresh_page))))"


text \<open>The sample board after team 2 scored and the cell \<open>(2, 3)\<close> was clicked once.\<close>

definition played_board :: state where
  "played_board =
     (case handleCellClick (2, 3) (adjustScore 2 (DStr ''add'') sample_board) of
        Inr st \<Rightarrow> st
      | Inl e \<Rightarrow> sample_board)"

subsection \<open>Scores and ranking, as the specification words them\<close>

text \<open>A score that is a number and not negative.\<close>

fun nonneg :: "jsval \<Rightarrow> bool" where
  "nonneg (Num n) = (0 \<le> n)"
| "nonneg _ = False"

text \<open>
  The order of the specification's leaderboard: \<open>a\<close> ranks before \<open>b\<close> when its score is
  higher, or the scores are equal and \<open>a\<close> is the smaller identifier.
\<close>

definition ranks_before :: "(nat \<times> jsval) list \<Rightarrow> nat \<Rightarrow> nat \<Rightarrow> bool" where
  "ranks_before ts a b =
     (case (score_of ts a, score_of ts b) of
        (Num x, Num y) \<Rightarrow> y < x \<or> (x = y \<and> a < b)
      | _ \<Rightarrow> False)"

text \<open>Further sample states: tied scores, and the page after a first decrease.\<close>

definition tied_scores :: state where
  "tied_scores = fresh_page\<lparr>teamScores := [(1, Num 300), (2, Num 300), (3, Num 100)]\<rparr>"

definition first_decrease :: state where
  "first_decrease = adjustScore 2 (DStr ''subtract'') (document_ready fresh_page)"

section \<open>Properties\<close>

subsection \<open>Sampling\<close>

declare shuffleSelf_loop.simps [simp del]

lemma baseRandom_range:
  assumes "index < length array"
  shows "index \<le> baseRandom r index (length array - 1)"
    and "baseRandom r index (length array - 1) < length array"
proof -
  show "index \<le> baseRandom r index (length array - 1)"
    by (simp add: baseRandom_def)
  have "r mod (length array - 1 - index + 1) < length array - 1 - index + 1"
    by (rule mod_less_divisor) simp
  moreover have "length array - 1 - index + 1 = length array - index"
    using assms by simp
  ultimately have "r mod (length array - 1 - index + 1) < length array - index"
    by simp
  then show "baseRandom r index (length array - 1) < length array"
    unfolding baseRandom_def using assms by linarith
qed

lemma shuffleSelf_loop_mset:
  "sz \<le> length array \<Longrightarrow> mset (shuffleSelf_loop rnd sz index array) = mset array"
proof (induction rnd sz index array rule: shuffleSelf_loop.induct)
  case (1 rnd sz index array)
  show ?case
  proof (cases "index < sz")
    case False
    then show ?thesis by (simp add: shuffleSelf_loop.simps)
  next
    case True
    define rand where "rand = baseRandom (rnd index) index (length array - 1)"
    define array' where "array' = array[rand := array ! index, index := array ! rand]"
    have i: "index < length array" using True "1.prems" by simp
    have r: "rand < length array" unfolding rand_def by (rule baseRandom_range(2)[OF i])
    have swap: "mset array' = mset array"
      unfolding array'_def by (rule mset_swap[OF i r])
    have "mset (shuffleSelf_loop rnd sz (index + 1) array') = mset array'"
      using "1.IH"[OF True rand_def refl] "1.prems" by (simp add: array'_def)
    moreover have "shuffleSelf_loop rnd sz index array = shuffleSelf_loop rnd sz (index + 1) array'"
      using True by (subst shuffleSelf_loop.simps) (simp add: Let_def rand_def array'_def)
    ultimately show ?thesis using swap by simp
  qed
qed

lemma shuffleSelf_loop_length:
  "sz \<le> length array \<Longrightarrow> length (shuffleSelf_loop rnd sz index array) = length array"
  using shuffleSelf_loop_mset[of sz array rnd index] by (metis size_mset)

lemma sampleSize_length: "length (sampleSize rnd collection n) = min n (length collection)"
  by (simp add: sampleSize_def shuffleSelf_def shuffleSelf_loop_length)

lemma mset_take_subset: "mset (take n xs) \<subseteq># mset xs"
proof -
  have "mset xs = mset (take n xs) + mset (drop n xs)"
    by (metis append_take_drop_id mset_append)
  then show ?thesis by simp
qed

lemma sampleSize_mset: "mset (sampleSize rnd collection n) \<subseteq># mset collection"
proof -
  have "mset (shuffleSelf_loop rnd (min n (length collection)) 0 collection) = mset collection"
    by (rule shuffleSelf_loop_mset) simp
  then show ?thesis
    unfolding sampleSize_def shuffleSelf_def using mset_take_subset by metis
qed

lemma sampleSize_distinct: "distinct collection \<Longrightarrow> distinct (sampleSize rnd collection n)"
proof -
  assume d: "distinct collection"
  have "mset (shuffleSelf_loop rnd (min n (length collection)) 0 collection) = mset collection"
    by (rule shuffleSelf_loop_mset) simp
  then have "distinct (shuffleSelf_loop rnd (min n (length collection)) 0 collection)"
    using d by (metis mset_eq_imp_distinct_iff)
  then show ?thesis
    by (simp add: sampleSize_def shuffleSelf_def)
qed

lemma sampleSize_set: "set (sampleSize rnd collection n) \<subseteq> set collection"
  using sampleSize_mset by (metis set_mset_mono set_mset_mset)

subsection \<open>The reveal cycle of one cell\<close>







subsection \<open>Fetching and game setup\<close>

lemma fetchCategoryIds_Inr:
  "fetchCategoryIds rnd (Inr data) st =
     (Inr (Some (sampleSize rnd (map api_id data) CATEGORY_TOTAL)), st)"
  by (simp add: fetchCategoryIds_def fetchCategoryIds_try_def)

lemma fetchCategoryIds_Inl:
  "fetchCategoryIds rnd (Inl e) st =
     (Inr None, st\<lparr>console := console st @ [(''Failed to fetch category IDs:'', e)]\<rparr>)"
  by (simp add: fetchCategoryIds_def fetchCategoryIds_try_def)

lemma fetchCategoryData_fst: "fst (fetchCategoryData rnd response st) = Inr (fetched rnd response)"
  by (simp add: fetchCategoryData_def fetched_def split: sum.splits)

lemma fetchCategoryData_snd: "\<exists>cs. snd (fetchCategoryData rnd response st) = st\<lparr>console := cs\<rparr>"
proof (cases "fetchCategoryData_try rnd response")
  case (Inl e)
  then have "snd (fetchCategoryData rnd response st) =
      st\<lparr>console := console st @ [(''Failed to fetch category data:'', e)]\<rparr>"
    by (simp add: fetchCategoryData_def)
  then show ?thesis by blast
next
  case (Inr cat)
  then have "snd (fetchCategoryData rnd response st) = st\<lparr>console := console st\<rparr>"
    by (simp add: fetchCategoryData_def)
  then show ?thesis by blast
qed

lemma fetch_loop_result:
  "\<exists>cs. fetch_loop w k ids st =
         (None, st\<lparr>gameCategories := gameCategories st @ pushed w k ids, console := cs\<rparr>)"
proof (induction ids arbitrary: k st)
  case Nil
  have "fetch_loop w k [] st =
          (None, st\<lparr>gameCategories := gameCategories st @ pushed w k [], console := console st\<rparr>)"
    by simp
  then show ?case by blast
next
  case (Cons catId ids)
  let ?f = "fetchCategoryData (rnd_clues w k) (category_response w k catId) st"
  let ?r = "fetched (rnd_clues w k) (category_response w k catId)"
  obtain cs1 where s: "snd ?f = st\<lparr>console := cs1\<rparr>"
    using fetchCategoryData_snd by blast
  have f: "?f = (Inr ?r, st\<lparr>console := cs1\<rparr>)"
    using fetchCategoryData_fst[of "rnd_clues w k" "category_response w k catId" st] s
    by (metis prod.collapse)
  let ?st1 = "st\<lparr>console := cs1, gameCategories := gameCategories st @ [?r]\<rparr>"
  have step: "fetch_loop w k (catId # ids) st = fetch_loop w (k + 1) ids ?st1"
    by (simp add: f)
  obtain cs where
    "fetch_loop w (k + 1) ids ?st1 =
       (None, ?st1\<lparr>gameCategories := gameCategories ?st1 @ pushed w (k + 1) ids, console := cs\<rparr>)"
    using Cons.IH by blast
  then have "fetch_loop w k (catId # ids) st =
       (None, st\<lparr>gameCategories := gameCategories st @ pushed w k (catId # ids), console := cs\<rparr>)"
    using step by simp
  then show ?case by blast
qed

lemma createGameBoard_fields:
  "gameCategories (snd (createGameBoard st)) = gameCategories st"
  "teamScores (snd (createGameBoard st)) = teamScores st"
  "start_screen (snd (createGameBoard st)) = start_screen st"
  "loading_screen (snd (createGameBoard st)) = loading_screen st"
  "game_board_screen (snd (createGameBoard st)) = game_board_screen st"
  "rankings_div (snd (createGameBoard st)) = rankings_div st"
  "timers (snd (createGameBoard st)) = timers st"
  "setups (snd (createGameBoard st)) = setups st"
  by (simp_all add: createGameBoard_def Let_def split: option.splits)



lemma resume_Inl:
  assumes "categories_response w = Inl e"
  shows "setupAndStartGame_resume w st =
           (Some TypeError,
            st\<lparr>setups := setups st - 1,
               console := console st @ [(''Failed to fetch category IDs:'', e)],
               gameCategories := []\<rparr>)"
  by (simp add: setupAndStartGame_resume_def assms fetchCategoryIds_Inl)

lemma resume_Inr:
  assumes "categories_response w = Inr data"
  shows "\<exists>cs. setupAndStartGame_resume w st =
           (None, removeLoading
              ((snd (createGameBoard
                  (st\<lparr>setups := setups st - 1, gameCategories := new_categories w,
                      console := cs\<rparr>)))
               \<lparr>game_elements := True, game_board_screen := True\<rparr>))"
proof -
  let ?ids = "sampleSize (rnd_ids w) (map api_id data) CATEGORY_TOTAL"
  let ?st2 = "st\<lparr>setups := setups st - 1, gameCategories := []\<rparr>"
  obtain cs where
    l: "fetch_loop w 0 ?ids ?st2 =
          (None, ?st2\<lparr>gameCategories := gameCategories ?st2 @ pushed w 0 ?ids, console := cs\<rparr>)"
    using fetch_loop_result by blast
  have "setupAndStartGame_resume w st =
           (None, removeLoading
              ((snd (createGameBoard
                  (st\<lparr>setups := setups st - 1, gameCategories := new_categories w,
                      console := cs\<rparr>)))
               \<lparr>game_elements := True, game_board_screen := True\<rparr>))"
    using l
    by (simp add: setupAndStartGame_resume_def assms fetchCategoryIds_Inr new_categories_def
        Let_def)
  then show ?thesis by blast
qed

lemma resume_gameCategories:
  "gameCategories (snd (setupAndStartGame_resume w st)) = new_categories w"
proof (cases "categories_response w")
  case (Inl e)
  then show ?thesis by (simp add: resume_Inl new_categories_def)
next
  case (Inr data)
  then obtain cs where "setupAndStartGame_resume w st =
           (None, removeLoading
              ((snd (createGameBoard
                  (st\<lparr>setups := setups st - 1, gameCategories := new_categories w,
                      console := cs\<rparr>)))
               \<lparr>game_elements := True, game_board_screen := True\<rparr>))"
    using resume_Inr by blast
  then show ?thesis by (simp add: removeLoading_def createGameBoard_fields)
qed

lemma resume_teamScores:
  "teamScores (snd (setupAndStartGame_resume w st)) = teamScores st"
proof (cases "categories_response w")
  case (Inl e)
  then show ?thesis by (simp add: resume_Inl)
next
  case (Inr data)
  then obtain cs where "setupAndStartGame_resume w st =
           (None, removeLoading
              ((snd (createGameBoard
                  (st\<lparr>setups := setups st - 1, gameCategories := new_categories w,
                      console := cs\<rparr>)))
               \<lparr>game_elements := True, game_board_screen := True\<rparr>))"
    using resume_Inr by blast
  then show ?thesis by (simp add: removeLoading_def createGameBoard_fields)
qed

lemma fetched_fresh:
  assumes "fetched rnd response = Some cat"
  shows "length (clues cat) \<le> CLUES_PER_CATEGORY" and "\<forall>c \<in> set (clues cat). showing c = Null"
  using assms
  by (auto simp: fetched_def fetchCategoryData_try_def format_clue_def Let_def sampleSize_length
      split: sum.splits)

lemma pushed_fresh:
  assumes "Some cat \<in> set (pushed w k ids)"
  shows "length (clues cat) \<le> CLUES_PER_CATEGORY \<and> (\<forall>c \<in> set (clues cat). showing c = Null)"
  using assms
proof (induction ids arbitrary: k)
  case Nil
  then show ?case by simp
next
  case (Cons catId ids)
  from Cons.prems consider
      "fetched (rnd_clues w k) (category_response w k catId) = Some cat"
    | "Some cat \<in> set (pushed w (k + 1) ids)"
    by auto
  then show ?case
  proof cases
    case 1
    then show ?thesis using fetched_fresh by blast
  next
    case 2
    then show ?thesis by (rule Cons.IH)
  qed
qed

lemma new_categories_fresh:
  assumes "Some cat \<in> set (new_categories w)"
  shows "length (clues cat) \<le> CLUES_PER_CATEGORY \<and> (\<forall>c \<in> set (clues cat). showing c = Null)"
  using assms pushed_fresh by (auto simp: new_categories_def split: sum.splits)



lemma adjustScore_board:
  "gameCategories (adjustScore team adjust st) = gameCategories st"
  "cells (adjustScore team adjust st) = cells st"
  by (simp_all add: adjustScore_def updateLeaderboard_def Let_def split: jsval.splits)

lemma adjustScore_cell:
  "clue_at (adjustScore team adjust st) cell = clue_at st cell \<and>
   cells (adjustScore team adjust st) cell = cells st cell"
  by (cases cell) (simp add: clue_at_def adjustScore_board)




subsection \<open>Claims on fetching\<close>

text \<open>
  Claim C5. When the remote service answers with a pool of candidate categories whose
  identifiers are pairwise different and which holds at least \<open>CATEGORY_TOTAL\<close> of them
  (the pool of 100 that the request asks for in particular), \<^verbatim>\<open>fetchCategoryIds\<close>
  returns, for every random draw, exactly \<open>CATEGORY_TOTAL = 6\<close> identifiers without
  duplicates, drawn from the pool without replacement (as a multiset they are contained
  in the pool's identifiers), and changes nothing.
\<close>

theorem fetchCategoryIds_sample:
  assumes "CATEGORY_TOTAL \<le> length pool" and "distinct (map api_id pool)"
  shows "\<exists>ids. fetchCategoryIds rnd (Inr pool) st = (Inr (Some ids), st) \<and>
               length ids = CATEGORY_TOTAL \<and> distinct ids \<and>
               mset ids \<subseteq># mset (map api_id pool)"
proof -
  let ?ids = "sampleSize rnd (map api_id pool) CATEGORY_TOTAL"
  have "fetchCategoryIds rnd (Inr pool) st = (Inr (Some ?ids), st)"
    by (rule fetchCategoryIds_Inr)
  moreover have "length ?ids = CATEGORY_TOTAL"
    using assms(1) by (simp add: sampleSize_length)
  moreover have "distinct ?ids"
    using assms(2) by (rule sampleSize_distinct)
  moreover have "mset ?ids \<subseteq># mset (map api_id pool)"
    by (rule sampleSize_mset)
  ultimately show ?thesis by blast
qed

theorem fetchCategoryIds_sample_witness:
  "length sample_pool = 100 \<and> CATEGORY_TOTAL \<le> length sample_pool \<and>
   distinct (map api_id sample_pool) \<and>
   (\<exists>ids. fetchCategoryIds (rnd_ids sample_world) (Inr sample_pool) fresh_page =
            (Inr (Some ids), fresh_page) \<and>
          length ids = CATEGORY_TOTAL \<and> distinct ids \<and>
          mset ids \<subseteq># mset (map api_id sample_pool))"
proof -
  have h1: "length sample_pool = 100"
    by (simp add: sample_pool_def)
  have h1': "CATEGORY_TOTAL \<le> length sample_pool"
    by (simp add: h1 CATEGORY_TOTAL_def)
  have h2: "distinct (map api_id sample_pool)"
    by (simp add: sample_pool_def distinct_map o_def inj_on_def)
  show ?thesis
    using fetchCategoryIds_sample[OF h1' h2, of "rnd_ids sample_world" fresh_page] h1 h1' h2
    by blast
qed

text \<open>
  Claim C6, amended. A successful \<^verbatim>\<open>fetchCategoryData\<close> returns the category's title
  and the formatted clues of a sample drawn without replacement from the category's
  clues; the sample has \<open>min 5 n\<close> entries for a category of \<open>n\<close> clues, hence exactly
  \<open>CLUES_PER_CATEGORY = 5\<close> as soon as the category has at least five; it has no
  duplicates when the category has none; every returned clue is hidden
  (\<open>showing = Null\<close>).
\<close>

theorem fetchCategoryData_sample:
  "\<exists>sampled cat. fetchCategoryData rnd (Inr data) st = (Inr (Some cat), st) \<and>
      title cat = data_title data \<and>
      clues cat = map format_clue sampled \<and>
      length sampled = min CLUES_PER_CATEGORY (length (data_clues data)) \<and>
      mset sampled \<subseteq># mset (data_clues data) \<and>
      (distinct (data_clues data) \<longrightarrow> distinct sampled) \<and>
      (CLUES_PER_CATEGORY \<le> length (data_clues data) \<longrightarrow> length (clues cat) = CLUES_PER_CATEGORY) \<and>
      (\<forall>c \<in> set (clues cat). showing c = Null)"
proof -
  let ?s = "sampleSize rnd (data_clues data) CLUES_PER_CATEGORY"
  let ?cat = "\<lparr>title = data_title data, clues = map format_clue ?s\<rparr>"
  have "fetchCategoryData rnd (Inr data) st = (Inr (Some ?cat), st)"
    by (simp add: fetchCategoryData_def fetchCategoryData_try_def format_clue_def Let_def)
  moreover have "length ?s = min CLUES_PER_CATEGORY (length (data_clues data))"
    by (simp add: sampleSize_length)
  moreover have "mset ?s \<subseteq># mset (data_clues data)"
    by (rule sampleSize_mset)
  moreover have "distinct (data_clues data) \<longrightarrow> distinct ?s"
    by (simp add: sampleSize_distinct)
  moreover have "\<forall>c \<in> set (clues ?cat). showing c = Null"
    by (simp add: format_clue_def)
  moreover have "CLUES_PER_CATEGORY \<le> length (data_clues data) \<longrightarrow>
      length (clues ?cat) = CLUES_PER_CATEGORY"
    by (simp add: sampleSize_length)
  moreover have "title ?cat = data_title data" "clues ?cat = map format_clue ?s"
    by simp_all
  ultimately show ?thesis by blast
qed

text \<open>
  Claim C6 as stated fails for a category with fewer than five clues: for three clues
  the successful call returns three.
\<close>

theorem fetchCategoryData_counterexample:
  "fetchCategoryData zero_rnd (Inr (sample_data 3)) fresh_page =
     (Inr (Some \<lparr>title = ''T'',
                 clues = [\<lparr>question = ''Q'', answer = ''A'', showing = Null\<rparr>,
                          \<lparr>question = ''Q'', answer = ''A'', showing = Null\<rparr>,
                          \<lparr>question = ''Q'', answer = ''A'', showing = Null\<rparr>]\<rparr>),
      fresh_page) \<and>
   length [\<lparr>question = ''Q'', answer = ''A'', showing = Null\<rparr>,
           \<lparr>question = ''Q'', answer = ''A'', showing = Null\<rparr>,
           \<lparr>question = ''Q'', answer = ''A'', showing = Null\<rparr>] \<noteq> CLUES_PER_CATEGORY"
proof -
  have "sampleSize zero_rnd (data_clues (sample_data 3)) CLUES_PER_CATEGORY =
      [\<lparr>clue_id = 0, clue_question = ''Q'', clue_answer = ''A''\<rparr>,
       \<lparr>clue_id = 1, clue_question = ''Q'', clue_answer = ''A''\<rparr>,
       \<lparr>clue_id = 2, clue_question = ''Q'', clue_answer = ''A''\<rparr>]"
    by code_simp
  then show ?thesis
    by (simp add: fetchCategoryData_def fetchCategoryData_try_def Let_def sample_data_def
        format_clue_def CLUES_PER_CATEGORY_def)
qed

theorem fetchCategoryData_sample_witness:
  "distinct (data_clues (sample_data 7)) \<and>
   CLUES_PER_CATEGORY \<le> length (data_clues (sample_data 7)) \<and>
   (\<exists>sampled cat.
      fetchCategoryData (rnd_clues sample_world 0) (Inr (sample_data 7)) fresh_page =
        (Inr (Some cat), fresh_page) \<and>
      title cat = data_title (sample_data 7) \<and>
      clues cat = map format_clue sampled \<and>
      length sampled = 5 \<and>
      mset sampled \<subseteq># mset (data_clues (sample_data 7)) \<and>
      distinct sampled \<and>
      length (clues cat) = CLUES_PER_CATEGORY \<and>
      clues cat \<noteq> [] \<and>
      list_all (\<lambda>c. showing c = Null) (clues cat))"
proof -
  have h1: "distinct (data_clues (sample_data 7))"
    by (simp add: sample_data_def distinct_map inj_on_def)
  have h2: "CLUES_PER_CATEGORY \<le> length (data_clues (sample_data 7))"
    by (simp add: sample_data_def CLUES_PER_CATEGORY_def)
  obtain sampled cat where t:
      "fetchCategoryData (rnd_clues sample_world 0) (Inr (sample_data 7)) fresh_page =
        (Inr (Some cat), fresh_page)"
      "title cat = data_title (sample_data 7)"
      "clues cat = map format_clue sampled"
      "length sampled = min CLUES_PER_CATEGORY (length (data_clues (sample_data 7)))"
      "mset sampled \<subseteq># mset (data_clues (sample_data 7))"
      "distinct (data_clues (sample_data 7)) \<longrightarrow> distinct sampled"
      "CLUES_PER_CATEGORY \<le> length (data_clues (sample_data 7)) \<longrightarrow>
         length (clues cat) = CLUES_PER_CATEGORY"
      "\<forall>c \<in> set (clues cat). showing c = Null"
    using fetchCategoryData_sample[of "rnd_clues sample_world 0" "sample_data 7" fresh_page]
    by blast
  have l: "length sampled = 5"
    using t(4) by (simp add: sample_data_def CLUES_PER_CATEGORY_def)
  have n: "clues cat \<noteq> []"
    using t(3) l by auto
  have a: "list_all (\<lambda>c. showing c = Null) (clues cat)"
    using t(8) by (simp add: list_all_iff)
  show ?thesis
    using h1 h2 t(1,2,3,5,6,7) l n a by blast
qed

text \<open>
  Claim C7. When the request fails, each fetch function logs the error with
  \<^verbatim>\<open>console.error\<close>, returns \<^verbatim>\<open>undefined\<close> instead of throwing, and leaves the game state
  and the page as they were: only the console grows. A game setup whose identifier
  request failed therefore receives no identifiers; it ends with a \<open>TypeError\<close> of its own
  and a page that shows nothing new.
\<close>

theorem fetch_failure_swallowed:
  "fetchCategoryIds rnd (Inl e) st =
     (Inr None, st\<lparr>console := console st @ [(''Failed to fetch category IDs:'', e)]\<rparr>) \<and>
   fetchCategoryData rnd' (Inl e) st =
     (Inr None, st\<lparr>console := console st @ [(''Failed to fetch category data:'', e)]\<rparr>) \<and>
   (categories_response w = Inl e \<longrightarrow>
      setupAndStartGame_resume w st =
        (Some TypeError,
         st\<lparr>setups := setups st - 1,
            console := console st @ [(''Failed to fetch category IDs:'', e)],
            gameCategories := []\<rparr>))"
  using resume_Inl[of w e st]
  by (simp add: fetchCategoryIds_def fetchCategoryIds_try_def fetchCategoryData_def
      fetchCategoryData_try_def)

theorem fetch_failure_swallowed_witness:
  "categories_response failing_world = Inl NetworkError \<and>
   fetchCategoryIds zero_rnd (Inl NetworkError) fresh_page =
     (Inr None,
      fresh_page\<lparr>console := console fresh_page @
         [(''Failed to fetch category IDs:'', NetworkError)]\<rparr>) \<and>
   fetchCategoryData zero_rnd (Inl NetworkError) fresh_page =
     (Inr None,
      fresh_page\<lparr>console := console fresh_page @
         [(''Failed to fetch category data:'', NetworkError)]\<rparr>) \<and>
   setupAndStartGame_resume failing_world fresh_page =
     (Some TypeError,
      fresh_page\<lparr>setups := setups fresh_page - 1,
         console := console fresh_page @ [(''Failed to fetch category IDs:'', NetworkError)],
         gameCategories := []\<rparr>)"
proof -
  have h: "categories_response failing_world = Inl NetworkError"
    by (simp add: failing_world_def)
  show ?thesis
    using fetch_failure_swallowed[of zero_rnd NetworkError fresh_page zero_rnd failing_world] h
    by blast
qed

subsection \<open>Claim on game setup\<close>

lemma createGameBoard_cells_cong:
  assumes "gameCategories st = gameCategories st'"
  shows "cells (snd (createGameBoard st)) = cells (snd (createGameBoard st'))"
  using assms by (simp add: createGameBoard_def Let_def split: option.splits)

lemma begin_fields:
  "teamScores (setupAndStartGame_begin st) = initial_teamScores"
  "cells (setupAndStartGame_begin st) = (\<lambda>cell. None)"
  "score_text (setupAndStartGame_begin st) = (\<lambda>team. Num 0)"
  by (simp_all add: setupAndStartGame_begin_def showLoading_def updateLeaderboard_def Let_def)

lemma resume_cells:
  "cells (snd (setupAndStartGame_resume w st)) =
     (case categories_response w of
        Inl e \<Rightarrow> cells st
      | Inr data \<Rightarrow> cells (snd (createGameBoard (fresh_page\<lparr>gameCategories := new_categories w\<rparr>))))"
proof (cases "categories_response w")
  case (Inl e)
  then show ?thesis by (simp add: resume_Inl)
next
  case (Inr data)
  then obtain cs where "setupAndStartGame_resume w st =
           (None, removeLoading
              ((snd (createGameBoard
                  (st\<lparr>setups := setups st - 1, gameCategories := new_categories w,
                      console := cs\<rparr>)))
               \<lparr>game_elements := True, game_board_screen := True\<rparr>))"
    using resume_Inr by blast
  then have "cells (snd (setupAndStartGame_resume w st)) =
      cells (snd (createGameBoard
                  (st\<lparr>setups := setups st - 1, gameCategories := new_categories w,
                      console := cs\<rparr>)))"
    by (simp add: removeLoading_def)
  also have "\<dots> = cells (snd (createGameBoard (fresh_page\<lparr>gameCategories := new_categories w\<rparr>)))"
    by (rule createGameBoard_cells_cong) simp
  finally show ?thesis using Inr by simp
qed

text \<open>
  Claim C8. \<^verbatim>\<open>setupAndStartGame\<close> resets the scores of the three teams to 0 before it
  waits for the remote service, and when it ends the scores are still reset, the category
  list is the newly fetched one and every clue in it is hidden. The new category list and
  the new cell texts are the same whatever the state before: nothing of the previous
  game is carried over.
\<close>

theorem setup_resets_game_state:
  "teamScores (setupAndStartGame_begin st) = initial_teamScores \<and>
   teamScores (snd (setupAndStartGame w st)) = initial_teamScores \<and>
   gameCategories (snd (setupAndStartGame w st)) = new_categories w \<and>
   gameCategories (snd (setupAndStartGame w st)) = gameCategories (snd (setupAndStartGame w st')) \<and>
   cells (snd (setupAndStartGame w st)) = cells (snd (setupAndStartGame w st')) \<and>
   (\<forall>cat c. Some cat \<in> set (gameCategories (snd (setupAndStartGame w st))) \<and>
             c \<in> set (clues cat) \<longrightarrow> showing c = Null)"
proof -
  have c: "cells (snd (setupAndStartGame w s)) =
     (case categories_response w of
        Inl e \<Rightarrow> (\<lambda>cell. None)
      | Inr data \<Rightarrow> cells (snd (createGameBoard (fresh_page\<lparr>gameCategories := new_categories w\<rparr>))))"
    for s
    by (simp add: setupAndStartGame_def resume_cells begin_fields split: sum.splits)
  have "cells (snd (setupAndStartGame w st)) = cells (snd (setupAndStartGame w st'))"
    by (simp only: c)
  moreover have "\<forall>cat c. Some cat \<in> set (new_categories w) \<and> c \<in> set (clues cat) \<longrightarrow>
      showing c = Null"
    using new_categories_fresh by blast
  ultimately show ?thesis
    by (simp add: setupAndStartGame_def resume_teamScores resume_gameCategories begin_fields)
qed

theorem setup_resets_game_state_witness:
  "score_of (teamScores played_board) 2 = Num 100 \<and>
   clue_at played_board (2, 3) = Some \<lparr>question = ''Q'', answer = ''A'', showing = Question\<rparr> \<and>
   teamScores (setupAndStartGame_begin played_board) = initial_teamScores \<and>
   teamScores (snd (setupAndStartGame sample_world played_board)) = initial_teamScores \<and>
   gameCategories (snd (setupAndStartGame sample_world played_board)) =
     gameCategories (snd (setupAndStartGame sample_world fresh_page)) \<and>
   cells (snd (setupAndStartGame sample_world played_board)) =
     cells (snd (setupAndStartGame sample_world fresh_page)) \<and>
   clue_at (snd (setupAndStartGame sample_world played_board)) (2, 3) =
     Some \<lparr>question = ''Q'', answer = ''A'', showing = Null\<rparr> \<and>
   Some \<lparr>title = ''T'', clues = replicate 5 \<lparr>question = ''Q'', answer = ''A'', showing = Null\<rparr>\<rparr>
     \<in> set (gameCategories (snd (setupAndStartGame sample_world played_board))) \<and>
   \<lparr>question = ''Q'', answer = ''A'', showing = Null\<rparr>
     \<in> set (clues \<lparr>title = ''T'',
          clues = replicate 5 \<lparr>question = ''Q'', answer = ''A'', showing = Null\<rparr>\<rparr>) \<and>
   showing \<lparr>question = ''Q'', answer = ''A'', showing = Null\<rparr> = Null"
proof -
  let ?c = "\<lparr>question = ''Q'', answer = ''A'', showing = Null\<rparr>"
  let ?cat = "\<lparr>title = ''T'', clues = replicate 5 ?c\<rparr>"
  have p1: "score_of (teamScores played_board) 2 = Num 100"
    by code_simp
  have p2: "clue_at played_board (2, 3) = Some \<lparr>question = ''Q'', answer = ''A'', showing = Question\<rparr>"
    by code_simp
  have p3: "clue_at (snd (setupAndStartGame sample_world played_board)) (2, 3) = Some ?c"
    by code_simp
  have h1: "Some ?cat \<in> set (gameCategories (snd (setupAndStartGame sample_world played_board)))"
    by code_simp
  have h2: "?c \<in> set (clues ?cat)"
    by (simp add: numeral_eq_Suc)
  note t = setup_resets_game_state[where st = played_board and w = sample_world
      and st' = fresh_page]
  have "showing ?c = Null"
    using t h1 h2 by blast
  then show ?thesis
    using t p1 p2 p3 h1 h2 by blast
qed

subsection \<open>Score adjustment\<close>

lemma score_of_set_score:
  "score_of (set_score team v ts) t = (if t = team then v else score_of ts t)"
  by (induction ts) (auto simp: score_of_def)

lemma set_score_others:
  "filter (\<lambda>p. fst p \<noteq> team) (set_score team v ts) = filter (\<lambda>p. fst p \<noteq> team) ts"
  by (induction ts) auto

lemma set_score_keys:
  "fst ` set (set_score team v ts) = insert team (fst ` set ts)"
proof (induction ts)
  case Nil
  then show ?case by simp
next
  case (Cons p ts)
  obtain k w where p: "p = (k, w)" by (cases p)
  show ?case
    unfolding p using Cons.IH by (cases "team = k"; cases "team < k") auto
qed

lemma set_score_keys_sorted:
  assumes "sorted_wrt (<) (map fst ts)"
  shows "sorted_wrt (<) (map fst (set_score team v ts))"
  using assms
proof (induction ts)
  case Nil
  then show ?case by simp
next
  case (Cons p ts)
  obtain k w where p: "p = (k, w)" by (cases p)
  have tail: "sorted_wrt (<) (map fst (set_score team v ts))"
    using Cons by simp
  have above: "\<forall>x \<in> fst ` set ts. k < x"
    using Cons.prems p by simp
  show ?case
  proof (cases "team = k")
    case True
    then show ?thesis using Cons.prems p by simp
  next
    case False
    show ?thesis
    proof (cases "team < k")
      case True
      then show ?thesis using Cons.prems p False above by auto
    next
      case False
      then have "k < team" using \<open>team \<noteq> k\<close> by simp
      then have "\<forall>x \<in> fst ` set (set_score team v ts). k < x"
        using above unfolding set_score_keys by simp
      then show ?thesis using tail p False \<open>team \<noteq> k\<close> by simp
    qed
  qed
qed

lemma updateLeaderboard_fields:
  "teamScores (updateLeaderboard st) = teamScores st"
  "gameCategories (updateLeaderboard st) = gameCategories st"
  "start_screen (updateLeaderboard st) = start_screen st"
  "loading_screen (updateLeaderboard st) = loading_screen st"
  "game_board_screen (updateLeaderboard st) = game_board_screen st"
  "rankings_div (updateLeaderboard st) = rankings_div st"
  "timers (updateLeaderboard st) = timers st"
  "setups (updateLeaderboard st) = setups st"
  by (simp_all add: updateLeaderboard_def Let_def)

lemma adjustScore_teamScores:
  "teamScores (adjustScore team adjust st) =
     (if adjust = DStr ''add'' then
        set_score team (js_plus (score_of (teamScores st) team) 100) (teamScores st)
      else if adjust = DStr ''subtract'' then
        set_score team (Math_max0 (js_minus (score_of (teamScores st) team) (Num 100)))
          (teamScores st)
      else teamScores st)"
  by (simp add: adjustScore_def updateLeaderboard_fields Let_def split: jsval.splits)

lemma adjustScore_panels:
  "start_screen (adjustScore team adjust st) = start_screen st"
  "loading_screen (adjustScore team adjust st) = loading_screen st"
  "game_board_screen (adjustScore team adjust st) = game_board_screen st"
  "rankings_div (adjustScore team adjust st) = rankings_div st"
  "timers (adjustScore team adjust st) = timers st"
  "setups (adjustScore team adjust st) = setups st"
  by (simp_all add: adjustScore_def updateLeaderboard_fields Let_def split: jsval.splits)

lemma adjustScore_ranking:
  "rankings (adjustScore team adjust st) =
     map (\<lambda>t. (t, score_of (teamScores (adjustScore team adjust st)) t))
         (sortedTeams (teamScores (adjustScore team adjust st)))"
  "winning_team_heading (adjustScore team adjust st) =
     (case sortedTeams (teamScores (adjustScore team adjust st)) of
        [] \<Rightarrow> None | t # _ \<Rightarrow> Some t)"
  by (simp_all add: adjustScore_def updateLeaderboard_def Let_def split: jsval.splits)

text \<open>
  The two branches of \<^verbatim>\<open>adjustScore\<close> in the integer arithmetic of \<open>js_plus\<close> and
  \<open>js_minus\<close>. They are used below for what rounding cannot change, that a score stays
  a number that is not negative; the value of a score is claimed inside the exact range
  only.
\<close>

lemma adjustScore_add:
  assumes "score_of (teamScores st) team = Num n"
  shows "score_of (teamScores (adjustScore team (DStr ''add'') st)) team = Num (n + 100)"
  using assms by (simp add: adjustScore_teamScores score_of_set_score)

lemma adjustScore_subtract:
  assumes "score_of (teamScores st) team = Num n"
  shows "score_of (teamScores (adjustScore team (DStr ''subtract'') st)) team = Num (max 0 (n - 100))"
  using assms by (simp add: adjustScore_teamScores score_of_set_score)

lemma adjustScore_other_direction:
  assumes "adjust \<noteq> DStr ''add''" and "adjust \<noteq> DStr ''subtract''"
  shows "teamScores (adjustScore team adjust st) = teamScores st"
  using assms by (simp add: adjustScore_teamScores)

lemma adjustScore_other_team:
  assumes "t \<noteq> team"
  shows "score_of (teamScores (adjustScore team adjust st)) t = score_of (teamScores st) t"
  using assms by (simp add: adjustScore_teamScores score_of_set_score)

lemma adjustScore_nonneg:
  assumes "nonneg (score_of (teamScores st) t)"
  shows "nonneg (score_of (teamScores (adjustScore team adjust st)) t)"
proof (cases "t = team")
  case False
  then show ?thesis using assms by (simp add: adjustScore_other_team)
next
  case True
  obtain n where n: "score_of (teamScores st) team = Num n" "0 \<le> n"
    using assms True by (cases "score_of (teamScores st) team") auto
  consider "adjust = DStr ''add''" | "adjust = DStr ''subtract''"
    | "adjust \<noteq> DStr ''add''" "adjust \<noteq> DStr ''subtract''"
    by blast
  then show ?thesis
  proof cases
    case 1
    then show ?thesis using n True adjustScore_add[OF n(1)] by simp
  next
    case 2
    then show ?thesis using n True adjustScore_subtract[OF n(1)] by simp
  next
    case 3
    then show ?thesis using assms by (simp add: adjustScore_other_direction)
  qed
qed

lemma handleCellClick_fields:
  assumes "handleCellClick c st = Inr st'"
  shows "teamScores st' = teamScores st"
    and "start_screen st' = start_screen st"
    and "loading_screen st' = loading_screen st"
    and "game_board_screen st' = game_board_screen st"
    and "rankings_div st' = rankings_div st"
    and "timers st' = timers st"
    and "setups st' = setups st"
  using assms
  by (auto simp: handleCellClick_def Let_def split: prod.splits if_splits option.splits)

lemma initial_nonneg:
  "\<forall>team \<in> set (Object_keys initial_teamScores). score_of initial_teamScores team = Num 0"
  by (simp add: Object_keys_def initial_teamScores_def score_of_def)

lemma reachable_nonneg:
  assumes "reachable st"
  shows "\<forall>team \<in> set (Object_keys initial_teamScores). nonneg (score_of (teamScores st) team)"
  using assms
proof (induction rule: reachable.induct)
  case (on_ready st)
  then show ?case using initial_nonneg by (simp add: document_ready_def)
next
  case (on_start st)
  then show ?case by (simp add: start_game_click_def)
next
  case (on_restart st)
  then show ?case by (simp add: restart_game_click_def)
next
  case (on_timeout st)
  then show ?case using initial_nonneg by (simp add: timeout_callback_def begin_fields)
next
  case (on_resume st w)
  then show ?case by (simp add: resume_teamScores)
next
  case (on_cell st c st')
  then show ?case using handleCellClick_fields(1)[of c st st'] by simp
next
  case (on_adjust st team adjust)
  then show ?case using adjustScore_nonneg by blast
next
  case (on_complete st)
  then show ?case by (simp add: completeGame_def Let_def)
next
  case (on_back st)
  then show ?case by (simp add: returnToMain_def)
qed

lemma reachable_keys_sorted:
  assumes "reachable st"
  shows "sorted_wrt (<) (Object_keys (teamScores st))"
  using assms
proof (induction rule: reachable.induct)
  case (on_ready st)
  then show ?case by (simp add: document_ready_def Object_keys_def initial_teamScores_def)
next
  case (on_start st)
  then show ?case by (simp add: start_game_click_def)
next
  case (on_restart st)
  then show ?case by (simp add: restart_game_click_def)
next
  case (on_timeout st)
  then show ?case
    by (simp add: timeout_callback_def begin_fields Object_keys_def initial_teamScores_def)
next
  case (on_resume st w)
  then show ?case by (simp add: resume_teamScores)
next
  case (on_cell st c st')
  then show ?case using handleCellClick_fields(1)[of c st st'] by simp
next
  case (on_adjust st team adjust)
  then show ?case
    by (simp add: adjustScore_teamScores Object_keys_def set_score_keys_sorted)
next
  case (on_complete st)
  then show ?case by (simp add: completeGame_def Let_def)
next
  case (on_back st)
  then show ?case by (simp add: returnToMain_def)
qed

lemma decreases_from_zero:
  assumes "score_of (teamScores st) team = Num 0"
  shows "score_of (teamScores ((adjustScore team (DStr ''subtract'') ^^ n) st)) team = Num 0"
proof (induction n)
  case 0
  then show ?case using assms by simp
next
  case (Suc n)
  then show ?case using adjustScore_subtract[OF Suc.IH] by simp
qed

text \<open>
  Claim C2. In every reachable state each of the three teams has a score that is a
  number \<open>n \<ge> 0\<close>, whatever handlers ran and with whatever arguments; the scores start
  at 0, and from 0 any number of decreases (one in particular) leaves the score at 0.
\<close>

theorem scores_never_negative:
  "(reachable st \<longrightarrow>
      (\<forall>team \<in> set (Object_keys initial_teamScores). nonneg (score_of (teamScores st) team))) \<and>
   (\<forall>team \<in> set (Object_keys initial_teamScores). score_of initial_teamScores team = Num 0) \<and>
   (score_of (teamScores st) team = Num 0 \<longrightarrow>
      score_of (teamScores (adjustScore team (DStr ''subtract'') st)) team = Num 0 \<and>
      score_of (teamScores ((adjustScore team (DStr ''subtract'') ^^ n) st)) team = Num 0)"
  using reachable_nonneg[of st] initial_nonneg decreases_from_zero[of st team n]
    decreases_from_zero[of st team 1]
  by simp

theorem scores_never_negative_witness:
  "reachable first_decrease \<and>
   2 \<in> set (Object_keys initial_teamScores) \<and>
   nonneg (score_of (teamScores first_decrease) 2) \<and>
   score_of initial_teamScores 2 = Num 0 \<and>
   score_of (teamScores first_decrease) 2 = Num 0 \<and>
   score_of (teamScores (adjustScore 2 (DStr ''subtract'') first_decrease)) 2 = Num 0 \<and>
   score_of (teamScores ((adjustScore 2 (DStr ''subtract'') ^^ 5) first_decrease)) 2 = Num 0"
proof -
  have "reachable (document_ready fresh_page)"
    by (rule reachable.on_ready) (simp_all add: fresh_page_def)
  then have r: "reachable first_decrease"
    unfolding first_decrease_def by (rule reachable.on_adjust)
  have k: "2 \<in> set (Object_keys initial_teamScores)"
    by (simp add: Object_keys_def initial_teamScores_def)
  have z: "score_of (teamScores first_decrease) 2 = Num 0"
    by (simp add: first_decrease_def adjustScore_teamScores document_ready_def fresh_page_def
        initial_teamScores_def score_of_def)
  note t = scores_never_negative[of first_decrease 2 5]
  show ?thesis
    using t r k z by blast
qed

subsection \<open>Ranking\<close>

lemma js_insert_set: "set (js_insert cmp x ys) = insert x (set ys)"
  by (induction ys) auto

lemma js_insert_mset: "mset (js_insert cmp x ys) = add_mset x (mset ys)"
  by (induction ys) auto

lemma js_sort_Cons: "js_sort cmp (x # xs) = js_insert cmp x (js_sort cmp xs)"
  by (simp add: js_sort_def)

lemma js_sort_mset: "mset (js_sort cmp xs) = mset xs"
  by (induction xs) (simp_all add: js_sort_def js_insert_mset)

lemma js_sort_set: "set (js_sort cmp xs) = set xs"
  using js_sort_mset[of cmp xs] by (metis set_mset_mset)

lemma ranks_before_Num:
  assumes "score_of ts a = Num x" and "score_of ts b = Num y"
  shows "ranks_before ts a b \<longleftrightarrow> y < x \<or> (x = y \<and> a < b)"
  using assms by (simp add: ranks_before_def)

lemma js_insert_ranks:
  assumes "sorted_wrt (ranks_before ts) ys"
    and "\<forall>y \<in> set ys. x < y"
    and "\<exists>n. score_of ts x = Num n"
    and "\<forall>y \<in> set ys. \<exists>n. score_of ts y = Num n"
  shows "sorted_wrt (ranks_before ts)
           (js_insert (\<lambda>a b. js_minus (score_of ts b) (score_of ts a)) x ys)"
  using assms
proof (induction ys)
  case Nil
  then show ?case by simp
next
  case (Cons y ys)
  let ?cmp = "\<lambda>a b. js_minus (score_of ts b) (score_of ts a)"
  obtain sx where sx: "score_of ts x = Num sx" using Cons.prems(3) by blast
  obtain sy where sy: "score_of ts y = Num sy" using Cons.prems(4) by auto
  have tail: "sorted_wrt (ranks_before ts) ys" and head: "\<forall>z \<in> set ys. ranks_before ts y z"
    using Cons.prems(1) by simp_all
  show ?case
  proof (cases "sx < sy")
    case True
    then have pos: "js_positive (?cmp x y)" by (simp add: sx sy)
    have "sorted_wrt (ranks_before ts) (js_insert ?cmp x ys)"
      using Cons.IH[OF tail] Cons.prems(2,3,4) by simp
    moreover have "ranks_before ts y x"
      using True by (simp add: ranks_before_Num[OF sy sx])
    ultimately show ?thesis
      using pos head by (simp add: js_insert_set)
  next
    case False
    then have npos: "\<not> js_positive (?cmp x y)" by (simp add: sx sy)
    have "ranks_before ts x z" if z: "z \<in> set (y # ys)" for z
    proof -
      obtain sz where sz: "score_of ts z = Num sz" using Cons.prems(4) z by blast
      have "sz \<le> sy"
      proof (cases "z = y")
        case True
        then show ?thesis using sy sz by simp
      next
        case False
        then have "ranks_before ts y z" using head z by simp
        then show ?thesis by (auto simp: ranks_before_Num[OF sy sz])
      qed
      moreover have "x < z" using Cons.prems(2) z by blast
      ultimately show ?thesis
        using \<open>\<not> sx < sy\<close> by (auto simp: ranks_before_Num[OF sx sz])
    qed
    then show ?thesis
      using npos Cons.prems(1) by simp
  qed
qed

lemma sortedTeams_ranks:
  assumes "sorted_wrt (<) xs" and "\<forall>t \<in> set xs. \<exists>n. score_of ts t = Num n"
  shows "sorted_wrt (ranks_before ts)
           (js_sort (\<lambda>a b. js_minus (score_of ts b) (score_of ts a)) xs)"
  using assms
proof (induction xs)
  case Nil
  then show ?case by (simp add: js_sort_def)
next
  case (Cons x xs)
  let ?cmp = "\<lambda>a b. js_minus (score_of ts b) (score_of ts a)"
  have "sorted_wrt (ranks_before ts) (js_sort ?cmp xs)"
    using Cons by simp
  moreover have "\<forall>y \<in> set (js_sort ?cmp xs). x < y"
    using Cons.prems(1) by (simp add: js_sort_set)
  moreover have "\<exists>n. score_of ts x = Num n"
    using Cons.prems(2) by simp
  moreover have "\<forall>y \<in> set (js_sort ?cmp xs). \<exists>n. score_of ts y = Num n"
    using Cons.prems(2) by (simp add: js_sort_set)
  ultimately show ?case
    unfolding js_sort_Cons by (rule js_insert_ranks)
qed

lemma completeGame_ranking:
  "final_rankings (completeGame st) =
     map (\<lambda>t. (t, score_of (teamScores st) t)) (sortedTeams (teamScores st))"
  by (simp add: completeGame_def Let_def)

lemma updateLeaderboard_ranking:
  "rankings (updateLeaderboard st) =
     map (\<lambda>t. (t, score_of (teamScores st) t)) (sortedTeams (teamScores st))"
  "winning_team_heading (updateLeaderboard st) =
     (case sortedTeams (teamScores st) of [] \<Rightarrow> None | t # _ \<Rightarrow> Some t)"
  by (simp_all add: updateLeaderboard_def Let_def)

lemma sortedTeams_example: "sortedTeams [(1, Num 300), (2, Num 300), (3, Num 100)] = [1, 2, 3]"
  by (simp add: sortedTeams_def Object_keys_def js_sort_def score_of_def)

text \<open>
  Claim C3. When the team identifiers are listed in ascending order and every score is a
  number, the ranking is a permutation of the team identifiers in which a team stands
  before another only if its score is higher, or equal with a smaller identifier. The
  live leaderboard (after \<^verbatim>\<open>updateLeaderboard\<close> and after every \<^verbatim>\<open>adjustScore\<close>) and the
  final rankings of \<^verbatim>\<open>completeGame\<close> list the teams in this order with their scores, and
  the heading names the first of them. For the scores \<open>{1: 300, 2: 300, 3: 100}\<close> the
  ranking is \<open>[1, 2, 3]\<close> and team 1 is the winning team.
\<close>

theorem leaderboard_ranking:
  assumes "sorted_wrt (<) (Object_keys (teamScores st))"
    and "\<forall>t \<in> set (Object_keys (teamScores st)). \<exists>n. score_of (teamScores st) t = Num n"
  shows "mset (sortedTeams (teamScores st)) = mset (Object_keys (teamScores st)) \<and>
         sorted_wrt (ranks_before (teamScores st)) (sortedTeams (teamScores st)) \<and>
         map fst (rankings (updateLeaderboard st)) = sortedTeams (teamScores st) \<and>
         map fst (final_rankings (completeGame st)) = sortedTeams (teamScores st) \<and>
         final_rankings (completeGame st) = rankings (updateLeaderboard st) \<and>
         map fst (rankings (adjustScore team adjust st)) =
           sortedTeams (teamScores (adjustScore team adjust st)) \<and>
         winning_team_heading (updateLeaderboard st) =
           (case sortedTeams (teamScores st) of [] \<Rightarrow> None | t # _ \<Rightarrow> Some t) \<and>
         (teamScores st = [(1, Num 300), (2, Num 300), (3, Num 100)] \<longrightarrow>
            sortedTeams (teamScores st) = [1, 2, 3] \<and>
            map fst (final_rankings (completeGame st)) = [1, 2, 3] \<and>
            winning_team_heading (updateLeaderboard st) = Some 1)"
proof -
  have "sorted_wrt (ranks_before (teamScores st)) (sortedTeams (teamScores st))"
    unfolding sortedTeams_def using assms by (rule sortedTeams_ranks)
  moreover have "mset (sortedTeams (teamScores st)) = mset (Object_keys (teamScores st))"
    by (simp add: sortedTeams_def js_sort_mset)
  moreover have "map fst (rankings (adjustScore team adjust st)) =
           sortedTeams (teamScores (adjustScore team adjust st))"
    by (simp add: adjustScore_ranking o_def)
  moreover have "teamScores st = [(1, Num 300), (2, Num 300), (3, Num 100)] \<longrightarrow>
            sortedTeams (teamScores st) = [1, 2, 3] \<and>
            map fst (final_rankings (completeGame st)) = [1, 2, 3] \<and>
            winning_team_heading (updateLeaderboard st) = Some 1"
  proof
    assume a: "teamScores st = [(1, Num 300), (2, Num 300), (3, Num 100)]"
    have s: "sortedTeams (teamScores st) = [1, 2, 3]"
      unfolding a by (rule sortedTeams_example)
    show "sortedTeams (teamScores st) = [1, 2, 3] \<and>
            map fst (final_rankings (completeGame st)) = [1, 2, 3] \<and>
            winning_team_heading (updateLeaderboard st) = Some 1"
      by (simp add: s updateLeaderboard_ranking completeGame_ranking o_def)
  qed
  moreover have "map fst (rankings (updateLeaderboard st)) = sortedTeams (teamScores st)"
      "map fst (final_rankings (completeGame st)) = sortedTeams (teamScores st)"
      "final_rankings (completeGame st) = rankings (updateLeaderboard st)"
      "winning_team_heading (updateLeaderboard st) =
           (case sortedTeams (teamScores st) of [] \<Rightarrow> None | t # _ \<Rightarrow> Some t)"
    by (simp_all add: updateLeaderboard_ranking completeGame_ranking o_def)
  ultimately show ?thesis
    by blast
qed

theorem leaderboard_ranking_witness:
  "sorted_wrt (<) (Object_keys (teamScores tied_scores)) \<and>
   list_all (\<lambda>t. \<exists>n. score_of (teamScores tied_scores) t = Num n)
     (Object_keys (teamScores tied_scores)) \<and>
   teamScores tied_scores = [(1, Num 300), (2, Num 300), (3, Num 100)] \<and>
   mset (sortedTeams (teamScores tied_scores)) = mset (Object_keys (teamScores tied_scores)) \<and>
   sorted_wrt (ranks_before (teamScores tied_scores)) (sortedTeams (teamScores tied_scores)) \<and>
   sortedTeams (teamScores tied_scores) = [1, 2, 3] \<and>
   map fst (rankings (updateLeaderboard tied_scores)) = [1, 2, 3] \<and>
   map fst (final_rankings (completeGame tied_scores)) = [1, 2, 3] \<and>
   winning_team_heading (updateLeaderboard tied_scores) = Some 1"
proof -
  have h0: "teamScores tied_scores = [(1, Num 300), (2, Num 300), (3, Num 100)]"
    by (simp add: tied_scores_def)
  have h1: "sorted_wrt (<) (Object_keys (teamScores tied_scores))"
    by (simp add: h0 Object_keys_def)
  have h2: "\<forall>t \<in> set (Object_keys (teamScores tied_scores)).
      \<exists>n. score_of (teamScores tied_scores) t = Num n"
    by (simp add: h0 Object_keys_def score_of_def)
  then have h2': "list_all (\<lambda>t. \<exists>n. score_of (teamScores tied_scores) t = Num n)
     (Object_keys (teamScores tied_scores))"
    by (simp add: list_all_iff)
  note t = leaderboard_ranking[OF h1 h2, of 1 "DStr ''add''"]
  have s: "sortedTeams (teamScores tied_scores) = [1, 2, 3]"
    using t h0 by blast
  have "map fst (rankings (updateLeaderboard tied_scores)) = [1, 2, 3]"
    using t s by simp
  then show ?thesis
    using t h0 h1 h2' s by simp
qed

subsection \<open>Claims on \<^verbatim>\<open>adjustScore\<close>\<close>

text \<open>
  Claim C4 as stated fails: \<^verbatim>\<open>adjustScore\<close> has no delta parameter. A number handed over
  where the button's direction is read, here 50 for team 1 at score 0, changes nothing,
  while \<open>max 0 (0 + 50)\<close> is 50.
\<close>

theorem adjustScore_delta_counterexample:
  "score_of (teamScores fresh_page) 1 = Num 0 \<and>
   score_of (teamScores (adjustScore 1 (DNum 50) fresh_page)) 1 = Num 0 \<and>
   Num 0 \<noteq> Num (max 0 (0 + 50))"
  by (simp add: adjustScore_teamScores fresh_page_def initial_teamScores_def score_of_def)

text \<open>
  Claim C4, amended. \<^verbatim>\<open>adjustScore\<close> reads a direction, not a delta. For a team whose
  score is a number \<open>n\<close> with \<open>0 \<le> n\<close> and \<open>n + 100 \<le> MAX_SAFE_INTEGER\<close>, where the
  double arithmetic of the script is exact, the direction \<^verbatim>\<open>"add"\<close> gives \<open>n + 100\<close>,
  which is \<open>max 0 (n + 100)\<close>, and \<^verbatim>\<open>"subtract"\<close> gives \<open>max 0 (n - 100)\<close>. Any other
  value, a number included, leaves the score as it is, whatever it was.
\<close>

theorem adjustScore_step:
  "(score_of (teamScores st) team = Num n \<and> 0 \<le> n \<and> n + 100 \<le> MAX_SAFE_INTEGER \<longrightarrow>
      score_of (teamScores (adjustScore team (DStr ''add'') st)) team = Num (n + 100) \<and>
      score_of (teamScores (adjustScore team (DStr ''add'') st)) team = Num (max 0 (n + 100)) \<and>
      score_of (teamScores (adjustScore team (DStr ''subtract'') st)) team =
        Num (max 0 (n + (- 100)))) \<and>
   (adjust \<noteq> DStr ''add'' \<and> adjust \<noteq> DStr ''subtract'' \<longrightarrow>
      score_of (teamScores (adjustScore team adjust st)) team = score_of (teamScores st) team)"
proof (intro conjI impI)
  assume h: "score_of (teamScores st) team = Num n \<and> 0 \<le> n \<and> n + 100 \<le> MAX_SAFE_INTEGER"
  then have n: "score_of (teamScores st) team = Num n" and pos: "0 \<le> n"
    by simp_all
  show add: "score_of (teamScores (adjustScore team (DStr ''add'') st)) team = Num (n + 100)"
    by (rule adjustScore_add[OF n])
  show "score_of (teamScores (adjustScore team (DStr ''add'') st)) team = Num (max 0 (n + 100))"
    using add pos by simp
  show "score_of (teamScores (adjustScore team (DStr ''subtract'') st)) team =
      Num (max 0 (n + (- 100)))"
    using adjustScore_subtract[OF n] by simp
next
  assume "adjust \<noteq> DStr ''add'' \<and> adjust \<noteq> DStr ''subtract''"
  then show "score_of (teamScores (adjustScore team adjust st)) team =
      score_of (teamScores st) team"
    by (simp add: adjustScore_other_direction)
qed

theorem adjustScore_step_witness:
  "score_of (teamScores tied_scores) 3 = Num 100 \<and> (0 :: int) \<le> 100 \<and>
   (100 :: int) + 100 \<le> MAX_SAFE_INTEGER \<and>
   DNum 50 \<noteq> DStr ''add'' \<and> DNum 50 \<noteq> DStr ''subtract'' \<and>
   score_of (teamScores (adjustScore 3 (DStr ''add'') tied_scores)) 3 = Num 200 \<and>
   score_of (teamScores (adjustScore 3 (DStr ''subtract'') tied_scores)) 3 = Num 0 \<and>
   score_of (teamScores (adjustScore 3 (DNum 50) tied_scores)) 3 = Num 100"
proof -
  have h: "score_of (teamScores tied_scores) 3 = Num 100"
    by (simp add: tied_scores_def score_of_def)
  have b: "(100 :: int) + 100 \<le> MAX_SAFE_INTEGER"
    by (simp add: MAX_SAFE_INTEGER_def)
  have d: "DNum 50 \<noteq> DStr ''add'' \<and> DNum 50 \<noteq> DStr ''subtract''"
    by simp
  note t = adjustScore_step[of tied_scores 3 100 "DNum 50"]
  have "score_of (teamScores (adjustScore 3 (DStr ''add'') tied_scores)) 3 = Num (100 + 100) \<and>
      score_of (teamScores (adjustScore 3 (DStr ''add'') tied_scores)) 3 =
        Num (max 0 (100 + 100)) \<and>
      score_of (teamScores (adjustScore 3 (DStr ''subtract'') tied_scores)) 3 =
        Num (max 0 (100 + (- 100)))"
    using t h b by simp
  moreover have "score_of (teamScores (adjustScore 3 (DNum 50) tied_scores)) 3 =
      score_of (teamScores tied_scores) 3"
    using t d by simp
  ultimately show ?thesis
    using h b by simp
qed

text \<open>
  Claim C10. \<^verbatim>\<open>adjustScore\<close> changes at most the addressed team's entry of the score
  object: the entries of the other teams (and so their scores), the category list and
  every clue are as before. When the direction is neither \<^verbatim>\<open>"add"\<close> nor \<^verbatim>\<open>"subtract"\<close>
  the whole score object is as before, and the leaderboard and the heading are still
  written, as \<^verbatim>\<open>updateLeaderboard\<close> computes them.
\<close>

theorem adjustScore_frame:
  "filter (\<lambda>p. fst p \<noteq> team) (teamScores (adjustScore team adjust st)) =
     filter (\<lambda>p. fst p \<noteq> team) (teamScores st) \<and>
   (t \<noteq> team \<longrightarrow>
      score_of (teamScores (adjustScore team adjust st)) t = score_of (teamScores st) t) \<and>
   gameCategories (adjustScore team adjust st) = gameCategories st \<and>
   clue_at (adjustScore team adjust st) cell = clue_at st cell \<and>
   (adjust \<noteq> DStr ''add'' \<and> adjust \<noteq> DStr ''subtract'' \<longrightarrow>
      teamScores (adjustScore team adjust st) = teamScores st \<and>
      rankings (adjustScore team adjust st) = rankings (updateLeaderboard st) \<and>
      winning_team_heading (adjustScore team adjust st) =
        winning_team_heading (updateLeaderboard st))"
proof -
  have "filter (\<lambda>p. fst p \<noteq> team) (teamScores (adjustScore team adjust st)) =
     filter (\<lambda>p. fst p \<noteq> team) (teamScores st)"
    by (simp add: adjustScore_teamScores set_score_others)
  moreover have "t \<noteq> team \<longrightarrow>
      score_of (teamScores (adjustScore team adjust st)) t = score_of (teamScores st) t"
    by (simp add: adjustScore_other_team)
  moreover have "adjust \<noteq> DStr ''add'' \<and> adjust \<noteq> DStr ''subtract'' \<longrightarrow>
      teamScores (adjustScore team adjust st) = teamScores st \<and>
      rankings (adjustScore team adjust st) = rankings (updateLeaderboard st) \<and>
      winning_team_heading (adjustScore team adjust st) =
        winning_team_heading (updateLeaderboard st)"
    by (simp add: adjustScore_ranking adjustScore_other_direction updateLeaderboard_ranking)
  ultimately show ?thesis
    using adjustScore_cell[of team adjust st cell] by (simp add: adjustScore_board)
qed

theorem adjustScore_frame_witness:
  "(1 :: nat) \<noteq> 2 \<and> DStr ''reset'' \<noteq> DStr ''add'' \<and> DStr ''reset'' \<noteq> DStr ''subtract'' \<and>
   score_of (teamScores (adjustScore 2 (DStr ''add'') played_board)) 2 = Num 200 \<and>
   score_of (teamScores (adjustScore 2 (DStr ''add'') played_board)) 1 =
     score_of (teamScores played_board) 1 \<and>
   gameCategories (adjustScore 2 (DStr ''add'') played_board) = gameCategories played_board \<and>
   clue_at (adjustScore 2 (DStr ''add'') played_board) (2, 3) = clue_at played_board (2, 3) \<and>
   teamScores (adjustScore 2 (DStr ''reset'') played_board) = teamScores played_board \<and>
   rankings (adjustScore 2 (DStr ''reset'') played_board) =
     rankings (updateLeaderboard played_board) \<and>
   winning_team_heading (adjustScore 2 (DStr ''reset'') played_board) =
     winning_team_heading (updateLeaderboard played_board)"
proof -
  have a: "score_of (teamScores (adjustScore 2 (DStr ''add'') played_board)) 2 = Num 200"
    by code_simp
  have d: "DStr ''reset'' \<noteq> DStr ''add''" "DStr ''reset'' \<noteq> DStr ''subtract''"
    by simp_all
  have n: "(1 :: nat) \<noteq> 2"
    by simp
  show ?thesis
    using adjustScore_frame[of 2 "DStr ''add''" played_board 1 "(2, 3)"]
      adjustScore_frame[of 2 "DStr ''reset''" played_board 1 "(2, 3)"] a d n
    by blast
qed

subsection \<open>Screens\<close>

lemma begin_panels:
  "start_screen (setupAndStartGame_begin st) = start_screen st"
  "loading_screen (setupAndStartGame_begin st) = True"
  "game_board_screen (setupAndStartGame_begin st) = game_board_screen st"
  "rankings_div (setupAndStartGame_begin st) = rankings_div st"
  "timers (setupAndStartGame_begin st) = timers st"
  "setups (setupAndStartGame_begin st) = setups st + 1"
  by (simp_all add: setupAndStartGame_begin_def showLoading_def updateLeaderboard_def Let_def)

lemma resume_panels:
  "start_screen (snd (setupAndStartGame_resume w st)) = start_screen st"
  "rankings_div (snd (setupAndStartGame_resume w st)) = rankings_div st"
  "timers (snd (setupAndStartGame_resume w st)) = timers st"
  "setups (snd (setupAndStartGame_resume w st)) = setups st - 1"
  "loading_screen (snd (setupAndStartGame_resume w st)) =
     (case categories_response w of Inl e \<Rightarrow> loading_screen st | Inr data \<Rightarrow> False)"
  "game_board_screen (snd (setupAndStartGame_resume w st)) =
     (case categories_response w of Inl e \<Rightarrow> game_board_screen st | Inr data \<Rightarrow> True)"
proof -
  have "start_screen (snd (setupAndStartGame_resume w st)) = start_screen st \<and>
    rankings_div (snd (setupAndStartGame_resume w st)) = rankings_div st \<and>
    timers (snd (setupAndStartGame_resume w st)) = timers st \<and>
    setups (snd (setupAndStartGame_resume w st)) = setups st - 1 \<and>
    loading_screen (snd (setupAndStartGame_resume w st)) =
     (case categories_response w of Inl e \<Rightarrow> loading_screen st | Inr data \<Rightarrow> False) \<and>
    game_board_screen (snd (setupAndStartGame_resume w st)) =
     (case categories_response w of Inl e \<Rightarrow> game_board_screen st | Inr data \<Rightarrow> True)"
  proof (cases "categories_response w")
    case (Inl e)
    then show ?thesis by (simp add: resume_Inl)
  next
    case (Inr data)
    then obtain cs where "setupAndStartGame_resume w st =
           (None, removeLoading
              ((snd (createGameBoard
                  (st\<lparr>setups := setups st - 1, gameCategories := new_categories w,
                      console := cs\<rparr>)))
               \<lparr>game_elements := True, game_board_screen := True\<rparr>))"
      using resume_Inr by blast
    then show ?thesis using Inr by (simp add: removeLoading_def createGameBoard_fields)
  qed
  then show
    "start_screen (snd (setupAndStartGame_resume w st)) = start_screen st"
    "rankings_div (snd (setupAndStartGame_resume w st)) = rankings_div st"
    "timers (snd (setupAndStartGame_resume w st)) = timers st"
    "setups (snd (setupAndStartGame_resume w st)) = setups st - 1"
    "loading_screen (snd (setupAndStartGame_resume w st)) =
       (case categories_response w of Inl e \<Rightarrow> loading_screen st | Inr data \<Rightarrow> False)"
    "game_board_screen (snd (setupAndStartGame_resume w st)) =
       (case categories_response w of Inl e \<Rightarrow> game_board_screen st | Inr data \<Rightarrow> True)"
    by simp_all
qed

lemma visible_panels_one:
  "visible_panels st = [Start] \<longleftrightarrow>
     start_screen st \<and> \<not> loading_screen st \<and> \<not> game_board_screen st \<and> \<not> rankings_div st"
  "visible_panels st = [Loading] \<longleftrightarrow>
     \<not> start_screen st \<and> loading_screen st \<and> \<not> game_board_screen st \<and> \<not> rankings_div st"
  "visible_panels st = [Board] \<longleftrightarrow>
     \<not> start_screen st \<and> \<not> loading_screen st \<and> game_board_screen st \<and> \<not> rankings_div st"
  "visible_panels st = [FinalRankings] \<longleftrightarrow>
     \<not> start_screen st \<and> \<not> loading_screen st \<and> \<not> game_board_screen st \<and> rankings_div st"
  by (auto simp: visible_panels_def)

lemma visible_panels_single:
  "(\<exists>p. visible_panels st = [p]) \<longleftrightarrow>
     visible_panels st = [Start] \<or> visible_panels st = [Loading] \<or>
     visible_panels st = [Board] \<or> visible_panels st = [FinalRankings]"
  by (metis panel.exhaust)

lemma transitions:
  "visible_panels (document_ready st) = [Start]"
  "visible_panels st = [Start] \<Longrightarrow> visible_panels (start_game_click st) = [Loading]"
  "visible_panels st = [Loading] \<Longrightarrow> visible_panels (timeout_callback st) = [Loading]"
  "visible_panels st = [Loading] \<Longrightarrow> categories_response w = Inr data \<Longrightarrow>
     visible_panels (snd (setupAndStartGame_resume w st)) = [Board]"
  "visible_panels st = [Loading] \<Longrightarrow> categories_response w = Inl e \<Longrightarrow>
     visible_panels (snd (setupAndStartGame_resume w st)) = [Loading]"
  "visible_panels st = [Board] \<Longrightarrow> visible_panels (restart_game_click st) = [Loading]"
  "visible_panels st = [Board] \<Longrightarrow> visible_panels (completeGame st) = [FinalRankings]"
  "visible_panels st = [FinalRankings] \<Longrightarrow> visible_panels (returnToMain st) = [Start]"
  "visible_panels (adjustScore team adjust st) = visible_panels st"
  "handleCellClick c st = Inr st' \<Longrightarrow> visible_panels st' = visible_panels st"
proof -
  show "visible_panels (document_ready st) = [Start]"
    by (simp add: visible_panels_def document_ready_def)
  show "visible_panels st = [Start] \<Longrightarrow> visible_panels (start_game_click st) = [Loading]"
    by (simp add: visible_panels_one start_game_click_def)
  show "visible_panels st = [Loading] \<Longrightarrow> visible_panels (timeout_callback st) = [Loading]"
    by (simp add: visible_panels_one timeout_callback_def begin_panels)
  show "visible_panels st = [Loading] \<Longrightarrow> categories_response w = Inr data \<Longrightarrow>
     visible_panels (snd (setupAndStartGame_resume w st)) = [Board]"
    by (simp add: visible_panels_one resume_panels)
  show "visible_panels st = [Loading] \<Longrightarrow> categories_response w = Inl e \<Longrightarrow>
     visible_panels (snd (setupAndStartGame_resume w st)) = [Loading]"
    by (simp add: visible_panels_one resume_panels)
  show "visible_panels st = [Board] \<Longrightarrow> visible_panels (restart_game_click st) = [Loading]"
    by (simp add: visible_panels_one restart_game_click_def)
  show "visible_panels st = [Board] \<Longrightarrow> visible_panels (completeGame st) = [FinalRankings]"
    by (simp add: visible_panels_one completeGame_def Let_def)
  show "visible_panels st = [FinalRankings] \<Longrightarrow> visible_panels (returnToMain st) = [Start]"
    by (simp add: visible_panels_one returnToMain_def)
  show "visible_panels (adjustScore team adjust st) = visible_panels st"
    by (simp add: visible_panels_def adjustScore_panels)
  show "handleCellClick c st = Inr st' \<Longrightarrow> visible_panels st' = visible_panels st"
    using handleCellClick_fields[of c st st'] by (simp add: visible_panels_def)
qed

lemma lifecycle_invariant:
  assumes "lifecycle st"
  shows "(\<exists>p. visible_panels st = [p]) \<and>
         (0 < timers st + setups st \<longrightarrow> visible_panels st = [Loading]) \<and>
         timers st + setups st \<le> 1"
  using assms
proof (induction rule: lifecycle.induct)
  case (on_ready st)
  then show ?case
    using transitions(1)[of st] by (simp add: document_ready_def)
next
  case (on_start st)
  then have v: "visible_panels st = [Start]" and z: "timers st + setups st = 0"
    by (auto simp: visible_panels_single visible_panels_one)
  show ?case
    using transitions(2)[OF v] z by (simp add: start_game_click_def)
next
  case (on_restart st)
  then have v: "visible_panels st = [Board]" and z: "timers st + setups st = 0"
    by (auto simp: visible_panels_single visible_panels_one)
  show ?case
    using transitions(6)[OF v] z by (simp add: restart_game_click_def)
next
  case (on_timeout st)
  then have v: "visible_panels st = [Loading]" and z: "timers st = 1" "setups st = 0"
    by auto
  show ?case
    using transitions(3)[OF v] z by (simp add: timeout_callback_def begin_panels)
next
  case (on_resume st w)
  then have v: "visible_panels st = [Loading]" and z: "timers st = 0" "setups st = 1"
    by auto
  show ?case
  proof (cases "categories_response w")
    case (Inl e)
    then show ?thesis using transitions(5)[OF v Inl] z by (simp add: resume_panels)
  next
    case (Inr data)
    then show ?thesis using transitions(4)[OF v Inr] z by (simp add: resume_panels)
  qed
next
  case (on_cell st c st')
  then show ?case
    using transitions(10)[of c st st'] handleCellClick_fields(6,7)[of c st st'] by simp
next
  case (on_adjust st team adjust)
  then show ?case
    by (simp add: transitions(9) adjustScore_panels)
next
  case (on_complete st)
  then have v: "visible_panels st = [Board]" and z: "timers st + setups st = 0"
    by (auto simp: visible_panels_single visible_panels_one)
  show ?case
    using transitions(7)[OF v] z by (simp add: completeGame_def Let_def)
next
  case (on_back st)
  then have v: "visible_panels st = [FinalRankings]" and z: "timers st + setups st = 0"
    by (auto simp: visible_panels_single visible_panels_one)
  show ?case
    using transitions(8)[OF v] z by (simp add: returnToMain_def)
qed

text \<open>
  Claim C9. Every transition of the lifecycle leaves exactly one primary panel shown:
  the \<^verbatim>\<open>ready\<close> callback shows the start screen alone; from the start screen alone the
  start click shows the loading screen alone; from the loading screen alone the timer
  callback keeps it and the end of the setup shows the board alone (the loading screen
  stays when the identifier request failed); from the board alone the restart click
  shows the loading screen alone and the complete click the final rankings alone; from
  the final rankings alone the back click shows the start screen alone. Hence in every
  state of a run of the lifecycle, taken between two handlers, exactly one primary panel
  is shown, and it is the loading screen while a timer or a setup is pending.
\<close>

theorem one_primary_panel:
  "(lifecycle st \<longrightarrow>
      (\<exists>p. visible_panels st = [p]) \<and>
      (0 < timers st + setups st \<longrightarrow> visible_panels st = [Loading])) \<and>
   visible_panels (document_ready st) = [Start] \<and>
   (visible_panels st = [Start] \<longrightarrow> visible_panels (start_game_click st) = [Loading]) \<and>
   (visible_panels st = [Loading] \<longrightarrow>
      visible_panels (timeout_callback st) = [Loading] \<and>
      (categories_response w = Inr data \<longrightarrow>
         visible_panels (snd (setupAndStartGame_resume w st)) = [Board]) \<and>
      (categories_response w = Inl e \<longrightarrow>
         visible_panels (snd (setupAndStartGame_resume w st)) = [Loading])) \<and>
   (visible_panels st = [Board] \<longrightarrow>
      visible_panels (restart_game_click st) = [Loading] \<and>
      visible_panels (completeGame st) = [FinalRankings]) \<and>
   (visible_panels st = [FinalRankings] \<longrightarrow> visible_panels (returnToMain st) = [Start])"
  using lifecycle_invariant[of st] transitions(1)[of st] transitions(2)[of st]
    transitions(3)[of st] transitions(4)[of st w data] transitions(5)[of st w e]
    transitions(6)[of st] transitions(7)[of st] transitions(8)[of st]
  by simp

theorem one_primary_panel_witness:
  "lifecycle (returnToMain (completeGame sample_board)) \<and>
   lifecycle (start_game_click (document_ready fresh_page)) \<and>
   0 < timers (start_game_click (document_ready fresh_page)) +
       setups (start_game_click (document_ready fresh_page)) \<and>
   visible_panels (document_ready fresh_page) = [Start] \<and>
   visible_panels (start_game_click (document_ready fresh_page)) = [Loading] \<and>
   visible_panels (timeout_callback (start_game_click (document_ready fresh_page))) = [Loading] \<and>
   categories_response sample_world = Inr sample_pool \<and>
   visible_panels sample_board = [Board] \<and>
   categories_response failing_world = Inl NetworkError \<and>
   visible_panels (snd (setupAndStartGame_resume failing_world
      (timeout_callback (start_game_click (document_ready fresh_page))))) = [Loading] \<and>
   visible_panels (restart_game_click sample_board) = [Loading] \<and>
   visible_panels (completeGame sample_board) = [FinalRankings] \<and>
   visible_panels (returnToMain (completeGame sample_board)) = [Start]"
proof -
  let ?s1 = "document_ready fresh_page"
  let ?s2 = "start_game_click ?s1"
  let ?s3 = "timeout_callback ?s2"
  let ?s5 = "completeGame sample_board"
  let ?s6 = "returnToMain ?s5"
  have w1: "categories_response sample_world = Inr sample_pool"
    by (simp add: sample_world_def)
  have w2: "categories_response failing_world = Inl NetworkError"
    by (simp add: failing_world_def)
  have v1: "visible_panels ?s1 = [Start]"
    using one_primary_panel[of fresh_page] by blast
  have v2: "visible_panels ?s2 = [Loading]"
    using one_primary_panel[of ?s1] v1 by blast
  have v3: "visible_panels ?s3 = [Loading]"
    using one_primary_panel[of ?s2] v2 by blast
  have v4: "visible_panels sample_board = [Board]"
    using one_primary_panel[of ?s3 sample_world sample_pool] v3 w1
    unfolding sample_board_def by blast
  have v4': "visible_panels (snd (setupAndStartGame_resume failing_world ?s3)) = [Loading]"
    using one_primary_panel[of ?s3 failing_world _ NetworkError] v3 w2 by blast
  have v5: "visible_panels (restart_game_click sample_board) = [Loading]"
      "visible_panels ?s5 = [FinalRankings]"
    using one_primary_panel[of sample_board] v4 by blast+
  have v6: "visible_panels ?s6 = [Start]"
    using one_primary_panel[of ?s5] v5(2) by blast
  have l1: "lifecycle ?s1"
    by (rule lifecycle.on_ready) (simp_all add: fresh_page_def)
  have l2: "lifecycle ?s2"
    using l1 v1 by (intro lifecycle.on_start) (simp_all add: visible_panels_one)
  have t2: "0 < timers ?s2 + setups ?s2"
    by (simp add: start_game_click_def)
  have l3: "lifecycle ?s3"
    using l2 by (rule lifecycle.on_timeout) (simp add: start_game_click_def)
  have "0 < setups ?s3"
    by (simp add: timeout_callback_def begin_panels)
  then have l4: "lifecycle sample_board"
    unfolding sample_board_def using l3 by (intro lifecycle.on_resume)
  have l5: "lifecycle ?s5"
    using l4 v4 by (intro lifecycle.on_complete) (simp_all add: visible_panels_one)
  have l6: "lifecycle ?s6"
    using l5 v5(2) by (intro lifecycle.on_back) (simp_all add: visible_panels_one)
  have "(\<exists>p. visible_panels ?s2 = [p]) \<and>
      (0 < timers ?s2 + setups ?s2 \<longrightarrow> visible_panels ?s2 = [Loading])"
    by (rule mp[OF conjunct1[OF one_primary_panel] l2])
  then have "visible_panels ?s2 = [Loading]"
    using t2 by (elim conjE impE)
  then show ?thesis
    using l6 l2 t2 v1 v3 w1 v4 w2 v4' v5 v6 by simp
qed

end
